theory Spec2Isabelle
  imports Complex_Main "HOL-Library.Sublist"
begin

section \<open>The chat relay of \<^verbatim>\<open>src/app/api/chat/route.ts\<close>\<close>

text \<open>
  The route handler \<^verbatim>\<open>POST\<close> forwards a prompt to an upstream generative-language API.
  It tries a fixed list of model names in order (the dispatcher), turns the winning
  response's event stream into plain text (the transcoder), appends a footer built from
  the captured grounding metadata, and closes the output stream.

  Conventions of the model:
  \<^item> a JavaScript string is represented by its UTF-8 encoding, the bytes that
    \<^verbatim>\<open>TextEncoder.encode\<close> writes for it, and a \<^verbatim>\<open>Buffer\<close> by its bytes; both are
    \<^typ>\<open>string\<close>, and \<^verbatim>\<open>encoder.encode\<close> is the identity on this representation;
  \<^item> a value of type \<^verbatim>\<open>any\<close> that comes out of \<^verbatim>\<open>JSON.parse\<close> is a \<open>json\<close> value, and
    \<^verbatim>\<open>undefined\<close> is \<open>None\<close> in \<open>json option\<close>;
  \<^item> a thrown exception is a value \<open>Inl e\<close> of a sum type, or a \<open>Throw e\<close> completion;
  \<^item> the functions of the JavaScript runtime and of the libraries whose results the handler
    only passes on (\<^verbatim>\<open>JSON.parse\<close>, the formatting and parsing of numbers, the wording of
    a \<^verbatim>\<open>TypeError\<close>, the constructor of \<^verbatim>\<open>HttpsProxyAgent\<close>) are parameters, collected in
    the record \<open>runtime\<close>;
  \<^item> the network is a parameter: what the \<open>i\<close>-th call of \<^verbatim>\<open>fetch\<close> does with the request
    it is given;
  \<^item> \<^verbatim>\<open>console.log\<close>, \<^verbatim>\<open>console.warn\<close> and \<^verbatim>\<open>console.error\<close> are left out.
\<close>

subsection \<open>Strings\<close>

type_synonym bytes = string

text \<open>\<^verbatim>\<open>String(n)\<close> for a non-negative integer \<open>n\<close> (\<^verbatim>\<open>response.status\<close>, \<^verbatim>\<open>index + 1\<close>).\<close>

definition digit :: "nat \<Rightarrow> char" where
  "digit d =
     (if d = 0 then CHR ''0'' else if d = 1 then CHR ''1'' else if d = 2 then CHR ''2''
      else if d = 3 then CHR ''3'' else if d = 4 then CHR ''4'' else if d = 5 then CHR ''5''
      else if d = 6 then CHR ''6'' else if d = 7 then CHR ''7'' else if d = 8 then CHR ''8''
      else CHR ''9'')"

fun show_nat :: "nat \<Rightarrow> string" where
  "show_nat n = (if n < 10 then [digit n] else show_nat (n div 10) @ [digit (n mod 10)])"

declare show_nat.simps [simp del]

text \<open>\<^verbatim>\<open>Array.prototype.join\<close> on an array of strings.\<close>

fun join :: "string \<Rightarrow> string list \<Rightarrow> string" where
  "join sep [] = []"
| "join sep [x] = x"
| "join sep (x # y # ys) = x @ sep @ join sep (y # ys)"

text \<open>\<^verbatim>\<open>Array.prototype.indexOf\<close>: the first index of the element, \<open>-1\<close> when it is absent.\<close>

fun indexOf :: "'a list \<Rightarrow> 'a \<Rightarrow> int" where
  "indexOf [] x = - 1"
| "indexOf (y # ys) x =
     (if y = x then 0 else (let i = indexOf ys x in if i < 0 then - 1 else i + 1))"

text \<open>
  \<^verbatim>\<open>s.split('\n')\<close>: the pieces of \<open>s\<close> between line feeds; never empty, its last element
  is what follows the last line feed. \<open>cur\<close> is the piece being read.
\<close>

fun split_from :: "string \<Rightarrow> string \<Rightarrow> string list" where
  "split_from cur [] = [cur]"
| "split_from cur (c # cs) =
     (if c = CHR 0x0A then cur # split_from [] cs else split_from (cur @ [c]) cs)"

definition split_lines :: "string \<Rightarrow> string list" where
  "split_lines s = split_from [] s"

text \<open>
  \<^verbatim>\<open>String.prototype.trim\<close> removes white space and line terminators from both ends:
  U+0009 to U+000D, U+0020, U+00A0, U+1680, U+2000 to U+200A, U+2028, U+2029, U+202F,
  U+205F, U+3000 and U+FEFF, here in their UTF-8 encodings.
\<close>

definition white_space :: "string list" where
  "white_space =
     map (\<lambda>c. [c]) [CHR 0x09, CHR 0x0A, CHR 0x0B, CHR 0x0C, CHR 0x0D, CHR 0x20] @
     [[CHR 0xC2, CHR 0xA0], [CHR 0xE1, CHR 0x9A, CHR 0x80]] @
     map (\<lambda>c. [CHR 0xE2, CHR 0x80, c])
       [CHR 0x80, CHR 0x81, CHR 0x82, CHR 0x83, CHR 0x84, CHR 0x85, CHR 0x86, CHR 0x87,
        CHR 0x88, CHR 0x89, CHR 0x8A, CHR 0xA8, CHR 0xA9, CHR 0xAF] @
     [[CHR 0xE2, CHR 0x81, CHR 0x9F], [CHR 0xE3, CHR 0x80, CHR 0x80],
      [CHR 0xEF, CHR 0xBB, CHR 0xBF]]"

function strip :: "string list \<Rightarrow> string \<Rightarrow> string" where
  "strip ws s =
     (case find (\<lambda>w. prefix w s) ws of
        None \<Rightarrow> s
      | Some w \<Rightarrow> if w = [] \<or> length s < length w then s else strip ws (drop (length w) s))"
  by pat_completeness auto
termination
  by (relation "measure (\<lambda>(ws, s). length s)") (auto simp: neq_Nil_conv)

declare strip.simps [simp del]

definition trim :: "string \<Rightarrow> string" where
  "trim s = rev (strip (map rev white_space) (rev (strip white_space s)))"

subsection \<open>Values, exceptions and the runtime\<close>

text \<open>
  The values \<^verbatim>\<open>JSON.parse\<close> and \<^verbatim>\<open>req.json()\<close> produce. An object is the list of its own
  properties, each key once. A number is the real value of the double (\<open>-0\<close> is \<open>0\<close>:
  both are falsy and print alike; the infinities, which a literal beyond the range of
  the doubles gives, are not represented).
\<close>

datatype json =
    JNull
  | JBool bool
  | JNum real
  | JStr string
  | JArr "json list"
  | JObj "(string \<times> json) list"

text \<open>
  \<open>Error m\<close> is an \<^verbatim>\<open>Error\<close> object whose message is \<open>m\<close>. \<open>TypeError t\<close> is the
  \<^verbatim>\<open>TypeError\<close> the engine raises: for a call of \<open>f\<close> that is not a function, for the
  read of property \<open>k\<close> of \<^verbatim>\<open>null\<close> or \<^verbatim>\<open>undefined\<close>, for destructuring \<^verbatim>\<open>null\<close>, for
  the conversion to a string or a number of an object that has no callable \<^verbatim>\<open>toString\<close>,
  and for a text that is not a URL.
\<close>

datatype nullish = Null | Undefined

datatype type_error =
    Not_a_function string
  | Cannot_read nullish string
  | Cannot_destructure nullish
  | Cannot_convert
  | Invalid_URL

datatype exn = Error string | TypeError type_error

record runtime =
  JSON_parse :: "string \<Rightarrow> json option"  \<comment> \<open>\<open>None\<close>: a \<^verbatim>\<open>SyntaxError\<close> is thrown\<close>
  Number_toString :: "real \<Rightarrow> string"  \<comment> \<open>\<^verbatim>\<open>String(n)\<close> for a number\<close>
  String_toNumber :: "string \<Rightarrow> real option"  \<comment> \<open>\<^verbatim>\<open>Number(s)\<close> for a string, \<open>None\<close>: \<^verbatim>\<open>NaN\<close>\<close>
  TypeError_message :: "type_error \<Rightarrow> string"  \<comment> \<open>the engine's wording\<close>
  HttpsProxyAgent :: "string \<Rightarrow> exn option"
    \<comment> \<open>\<^verbatim>\<open>new HttpsProxyAgent(proxyUrl)\<close>: \<open>None\<close> when it returns the agent, \<open>Some e\<close> when it throws \<open>e\<close>\<close>

text \<open>\<^verbatim>\<open>e.message\<close>\<close>

fun exn_message :: "runtime \<Rightarrow> exn \<Rightarrow> string" where
  "exn_message rt (Error m) = m"
| "exn_message rt (TypeError t) = TypeError_message rt t"

text \<open>
  \<^verbatim>\<open>v.k\<close> for a value \<open>v\<close> that is neither \<^verbatim>\<open>null\<close> nor \<^verbatim>\<open>undefined\<close> and a key \<open>k\<close>
  that no prototype defines (every key the handler reads by name is such a key): the
  own property of an object, \<^verbatim>\<open>undefined\<close> for anything else.
\<close>

fun own :: "json \<Rightarrow> string \<Rightarrow> json option" where
  "own (JObj kvs) k = map_of kvs k"
| "own v k = None"

text \<open>
  \<^verbatim>\<open>v[0]\<close> for such a value: the first element of an array, the property \<^verbatim>\<open>"0"\<close> of an
  object, the first character of a string (the handler only reads named properties of
  it, which are all \<^verbatim>\<open>undefined\<close>).
\<close>

fun index0 :: "json \<Rightarrow> json option" where
  "index0 (JArr xs) = (case xs of [] \<Rightarrow> None | x # _ \<Rightarrow> Some x)"
| "index0 (JObj kvs) = map_of kvs ''0''"
| "index0 (JStr s) = (if s = [] then None else Some (JStr (take 1 s)))"
| "index0 v = None"

text \<open>Optional chaining: \<^verbatim>\<open>v?.k\<close> and \<^verbatim>\<open>v?.[0]\<close>.\<close>

fun opt_prop :: "json option \<Rightarrow> string \<Rightarrow> json option" where
  "opt_prop None k = None"
| "opt_prop (Some JNull) k = None"
| "opt_prop (Some v) k = own v k"

fun opt_index0 :: "json option \<Rightarrow> json option" where
  "opt_index0 None = None"
| "opt_index0 (Some JNull) = None"
| "opt_index0 (Some v) = index0 v"

text \<open>\<^verbatim>\<open>ToBoolean\<close>: what \<^verbatim>\<open>if (v)\<close> and \<^verbatim>\<open>v || w\<close> test.\<close>

fun truthy :: "json option \<Rightarrow> bool" where
  "truthy None = False"
| "truthy (Some JNull) = False"
| "truthy (Some (JBool b)) = b"
| "truthy (Some (JNum n)) = (n \<noteq> 0)"
| "truthy (Some (JStr s)) = (s \<noteq> [])"
| "truthy (Some (JArr xs)) = True"
| "truthy (Some (JObj kvs)) = True"

text \<open>
  \<^verbatim>\<open>ToString\<close>, as a template literal and \<^verbatim>\<open>encoder.encode\<close> apply it. An object is
  converted by the method \<^verbatim>\<open>toString\<close> it has: the inherited one, which gives
  \<^verbatim>\<open>[object Object]\<close>, unless the object has an own property of that name. An own
  property of a value out of \<^verbatim>\<open>JSON.parse\<close> is never callable, the inherited \<^verbatim>\<open>valueOf\<close>
  returns the object itself, and so the conversion throws a \<^verbatim>\<open>TypeError\<close>. An array
  prints its elements separated by commas, \<^verbatim>\<open>null\<close> among them as the empty string;
  \<open>element_Strings\<close> converts the elements in order, as \<^verbatim>\<open>Array.prototype.join\<close> does.
\<close>

fun js_String :: "runtime \<Rightarrow> json \<Rightarrow> exn + string"
  and element_Strings :: "runtime \<Rightarrow> json list \<Rightarrow> exn + string list"
where
  "js_String rt JNull = Inr ''null''"
| "js_String rt (JBool b) = Inr (if b then ''true'' else ''false'')"
| "js_String rt (JNum n) = Inr (Number_toString rt n)"
| "js_String rt (JStr s) = Inr s"
| "js_String rt (JArr xs) =
     (case element_Strings rt xs of Inl error \<Rightarrow> Inl error | Inr ss \<Rightarrow> Inr (join '','' ss))"
| "js_String rt (JObj kvs) =
     (case map_of kvs ''toString'' of
        None \<Rightarrow> Inr ''[object Object]''
      | Some v \<Rightarrow> Inl (TypeError Cannot_convert))"
| "element_Strings rt [] = Inr []"
| "element_Strings rt (x # xs) =
     (case (if x = JNull then Inr [] else js_String rt x) of
        Inl error \<Rightarrow> Inl error
      | Inr s \<Rightarrow>
          (case element_Strings rt xs of Inl error \<Rightarrow> Inl error | Inr ss \<Rightarrow> Inr (s # ss)))"

definition to_String :: "runtime \<Rightarrow> json option \<Rightarrow> exn + string" where
  "to_String rt v = (case v of None \<Rightarrow> Inr ''undefined'' | Some x \<Rightarrow> js_String rt x)"

text \<open>
  \<^verbatim>\<open>ToNumber\<close>; \<open>Inr None\<close> is \<^verbatim>\<open>NaN\<close>. An array or object is converted through its
  string, and throws where that conversion throws.
\<close>

definition to_Number :: "runtime \<Rightarrow> json option \<Rightarrow> exn + real option" where
  "to_Number rt v =
     (case v of
        None \<Rightarrow> Inr None
      | Some JNull \<Rightarrow> Inr (Some 0)
      | Some (JBool b) \<Rightarrow> Inr (Some (if b then 1 else 0))
      | Some (JNum n) \<Rightarrow> Inr (Some n)
      | Some (JStr s) \<Rightarrow> Inr (String_toNumber rt s)
      | Some x \<Rightarrow>
          (case js_String rt x of
             Inl error \<Rightarrow> Inl error
           | Inr s \<Rightarrow> Inr (String_toNumber rt s)))"

text \<open>
  \<^verbatim>\<open>v.length > 0\<close> for a value \<open>v\<close> that is neither \<^verbatim>\<open>null\<close> nor \<^verbatim>\<open>undefined\<close>: the
  length of an array or a string, the property \<^verbatim>\<open>length\<close> of an object converted to a
  number, \<^verbatim>\<open>undefined\<close> (and the comparison false) for a number or a boolean.
\<close>

fun length_positive :: "runtime \<Rightarrow> json \<Rightarrow> exn + bool" where
  "length_positive rt (JArr xs) = Inr (xs \<noteq> [])"
| "length_positive rt (JStr s) = Inr (s \<noteq> [])"
| "length_positive rt (JObj kvs) =
     (case to_Number rt (map_of kvs ''length'') of
        Inl error \<Rightarrow> Inl error
      | Inr None \<Rightarrow> Inr False
      | Inr (Some n) \<Rightarrow> Inr (0 < n))"
| "length_positive rt v = Inr False"

text \<open>\<^verbatim>\<open>v || []\<close>\<close>

definition or_empty :: "json option \<Rightarrow> json" where
  "or_empty v = (case v of None \<Rightarrow> JArr [] | Some x \<Rightarrow> if truthy (Some x) then x else JArr [])"

subsection \<open>The request sent upstream\<close>

text \<open>
  The prior turns reshaped (lines 24 to 27): \<^verbatim>\<open>history.map\<close> throws unless \<^verbatim>\<open>history\<close> is an
  array, and the callback throws on a \<^verbatim>\<open>null\<close> element. A property whose value is
  \<^verbatim>\<open>undefined\<close> is left out, as \<^verbatim>\<open>JSON.stringify\<close> leaves it out.
\<close>

definition turn :: "json \<Rightarrow> exn + json" where
  "turn msg =
     (if msg = JNull then Inl (TypeError (Cannot_read Null ''role''))
      else Inr (JObj
        [(''role'', JStr (if own msg ''role'' = Some (JStr ''user'') then ''user'' else ''model'')),
         (''parts'', JArr [JObj (case own msg ''text'' of None \<Rightarrow> [] | Some t \<Rightarrow> [(''text'', t)])])]))"

fun map_throwing :: "('a \<Rightarrow> exn + 'b) \<Rightarrow> 'a list \<Rightarrow> exn + 'b list" where
  "map_throwing f [] = Inr []"
| "map_throwing f (x # xs) =
     (case f x of
        Inl e \<Rightarrow> Inl e
      | Inr y \<Rightarrow> (case map_throwing f xs of Inl e \<Rightarrow> Inl e | Inr ys \<Rightarrow> Inr (y # ys)))"

definition history_map :: "json option \<Rightarrow> exn + json list" where
  "history_map history =
     (case history of
        None \<Rightarrow> Inl (TypeError (Cannot_read Undefined ''map''))
      | Some JNull \<Rightarrow> Inl (TypeError (Cannot_read Null ''map''))
      | Some (JArr msgs) \<Rightarrow> map_throwing turn msgs
      | Some v \<Rightarrow> Inl (TypeError (Not_a_function ''history.map'')))"

text \<open>The text appended to the prompt (lines 32 to 36).\<close>

definition prompt_suffix :: string where
  \<open>prompt_suffix =
     join [CHR 0x0A]
      [[],
       [],
       ''(IMPORTANT: '',
       ''1. Start with <thinking> block.'',
       ''2. Search queries MUST be in ENGLISH for international coverage.'',
       ''3. Final Answer MUST be in CHINESE.'',
       ''4. You MUST include a '## Reference Sources' section with 20+ citations, manually appending English sources if needed.)'']\<close>

text \<open>
  The current message, pushed onto the contents (lines 30 to 37); the template literal
  throws where the conversion of \<^verbatim>\<open>message\<close> to a string throws.
\<close>

definition user_turn :: "runtime \<Rightarrow> json option \<Rightarrow> exn + json" where
  "user_turn rt message =
     (case to_String rt message of
        Inl error \<Rightarrow> Inl error
      | Inr s \<Rightarrow>
          Inr (JObj [(''role'', JStr ''user''),
                     (''parts'', JArr [JObj [(''text'', JStr (s @ prompt_suffix))]])]))"

text \<open>The system instruction (lines 67 to 96).\<close>

definition system_text :: string where
  \<open>system_text =
     join [CHR 0x0A]
      [''You are an expert Research Assistant for a Chinese analyst.'',
       [],
       ''**CORE DIRECTIVE**'',
       ''1. **SEARCH PHASE (ENGLISH):** You MUST search in **ENGLISH** to find authoritative international data (NASA, IEA, Bloomberg, etc.). Do NOT use Chinese search queries.'',
       ''2. **OUTPUT PHASE (CHINESE):** You MUST translate and synthesize all findings into **CHINESE** for the final report.'',
       [],
       ''**MANDATORY RESPONSE STRUCTURE**'',
       ''<thinking>'',
       ''1.  **Analyze Request:** (Identify key topics)'',
       ''2.  **Search Strategy (ENGLISH):** (List 5-10 ENGLISH search queries. e.g. "Global Space Solar Power market size")'',
       ''3.  **Synthesis (CHINESE):** (Plan the structure of the Chinese report)'',
       ''4.  **Language Verification:** (Confirm the Final Answer will be 100% Chinese)'',
       ''</thinking>'',
       [],
       ''[Your Final Answer in CHINESE]'',
       [],
       ''[Required: Manual Reference Section]'',
       [],
       ''**CRITICAL RULES:**'',
       ''1.  **Language**: '',
       ''    - **Final Output MUST be CHINESE**.'',
       ''    - **NO ENGLISH** in the main body (except for proper nouns like 'SpaceX').'',
       ''2.  **Citations**:'',
       ''    - **Quantity**: 20+ Total References.'',
       ''    - **Quality**: **International sources are mandatory**.'',
       ''    - **Manual Fallback**: If the automatic tool provides Chinese links, you **MUST** manually append 10-15 **English/International URLs** at the bottom under '## Reference Sources'.'',
       ''    - **Format**:'',
       ''        - [1] [NASA: Space Solar Power](https://www.nasa.gov/...)'',
       ''        - [2] [IEA: Renewable 2023](https://www.iea.org/...)'',
       []]\<close>

text \<open>The object given to \<^verbatim>\<open>JSON.stringify\<close> (lines 63 to 98).\<close>

definition request_body :: "json list \<Rightarrow> json" where
  "request_body contents =
     JObj [(''contents'', JArr contents),
           (''tools'', JArr [JObj [(''googleSearch'', JObj [])]]),
           (''system_instruction'', JObj [(''parts'', JArr [JObj [(''text'', JStr system_text)]])])]"

text \<open>
  A call of \<^verbatim>\<open>fetch(url, options)\<close>: the method is \<^verbatim>\<open>POST\<close> and the content type
  \<^verbatim>\<open>application/json\<close> in every call; \<open>agent\<close> is the proxy the call goes through.
\<close>

record request =
  url :: string
  options_body :: json
  options_agent :: "string option"

record env =
  GEMINI_API_KEY :: "string option"
  HTTPS_PROXY :: "string option"
  GEMINI_BASE_URL :: "string option"

text \<open>\<^verbatim>\<open>process.env.GEMINI_BASE_URL || '...'\<close> (line 13)\<close>

definition baseUrl :: "env \<Rightarrow> string" where
  "baseUrl e =
     (case GEMINI_BASE_URL e of
        None \<Rightarrow> ''https://generativelanguage.googleapis.com''
      | Some u \<Rightarrow> if u = [] then ''https://generativelanguage.googleapis.com'' else u)"

text \<open>
  Lines 101 to 103: no agent when \<^verbatim>\<open>HTTPS_PROXY\<close> is unset or empty, otherwise the agent
  the constructor returns for it, or the exception the constructor throws.
\<close>

definition proxy_agent :: "runtime \<Rightarrow> env \<Rightarrow> exn + string option" where
  "proxy_agent rt e =
     (case HTTPS_PROXY e of
        None \<Rightarrow> Inr None
      | Some proxyUrl \<Rightarrow>
          if proxyUrl = [] then Inr None
          else (case HttpsProxyAgent rt proxyUrl of
                  Some error \<Rightarrow> Inl error
                | None \<Rightarrow> Inr (Some proxyUrl)))"

text \<open>
  The url and the options of one attempt (lines 58 to 99) with the agent of lines 101 to
  103; \<open>apiKey\<close> is the credential.
\<close>

definition request_of :: "string option \<Rightarrow> env \<Rightarrow> string \<Rightarrow> json list \<Rightarrow> string \<Rightarrow> request" where
  "request_of agent e apiKey contents model =
     \<lparr>url = baseUrl e @ ''/v1beta/models/'' @ model @ '':streamGenerateContent?key='' @ apiKey
              @ ''&alt=sse'',
      options_body = request_body contents,
      options_agent = agent\<rparr>"

text \<open>
  What one iteration does before its \<^verbatim>\<open>try\<close> block (lines 58 to 103): \<open>Inr\<close> the request it
  will give to \<^verbatim>\<open>fetch\<close>, \<open>Inl\<close> the exception thrown by the constructor of the agent.
\<close>

definition request_for :: "runtime \<Rightarrow> env \<Rightarrow> string \<Rightarrow> json list \<Rightarrow> string \<Rightarrow> exn + request" where
  "request_for rt e apiKey contents model =
     (case proxy_agent rt e of
        Inl error \<Rightarrow> Inl error
      | Inr agent \<Rightarrow> Inr (request_of agent e apiKey contents model))"

text \<open>The candidates (line 41).\<close>

definition models :: "string list" where
  "models = [''gemini-2.0-flash'', ''gemini-2.0-flash-thinking-exp-01-21'', ''gemini-1.5-pro'',
             ''gemini-1.5-pro-002'', ''gemini-1.5-pro-latest'']"

subsection \<open>The network\<close>

text \<open>
  A response: its status, what \<^verbatim>\<open>await response.text()\<close> gives (a string, or the exception
  it rejects with), the chunks that iterating \<^verbatim>\<open>response.body\<close> yields, and the exception
  with which the iteration fails after them, if it does. \<^verbatim>\<open>response.ok\<close> is a status from
  200 to 299.
\<close>

record response =
  status :: nat
  response_text :: "exn + string"
  body :: "bytes list"
  body_error :: "exn option"

definition ok :: "response \<Rightarrow> bool" where
  "ok r = (200 \<le> status r \<and> status r < 300)"

datatype fetch_result = Rejected exn | Resolved response

text \<open>What the \<open>i\<close>-th call of \<^verbatim>\<open>fetch\<close> (counted from 0) does with its request.\<close>

type_synonym network = "nat \<Rightarrow> request \<Rightarrow> fetch_result"

subsection \<open>The dispatcher (lines 47 to 129)\<close>

text \<open>
  The variables of \<^verbatim>\<open>start\<close> that the loop over the candidates updates, and \<open>fetched\<close>, the
  requests given to \<^verbatim>\<open>fetch\<close> so far, in the order of the calls.
\<close>

record dispatch =
  response :: "response option"
  usedModel :: string
  lastError :: "exn option"
  errorLog :: "string list"
  fetched :: "request list"

definition dispatch_init :: dispatch where
  "dispatch_init =
     \<lparr>response = None, usedModel = [], lastError = None, errorLog = [], fetched = []\<rparr>"

text \<open>How a block of statements ends.\<close>

datatype completion = Normal | Break | Continue | Throw exn

text \<open>Lines 115 and 117: the entry of one failed attempt, and the error of all so far.\<close>

definition currentError :: "string \<Rightarrow> nat \<Rightarrow> string \<Rightarrow> string" where
  "currentError model st errorText =
     ''Model '' @ model @ '': '' @ show_nat st @ '' - '' @ errorText"

definition all_models_failed :: "string list \<Rightarrow> exn" where
  "all_models_failed entries =
     Error (''Gemini API Error: All models failed. Details: '' @ join '' | '' entries)"

text \<open>The \<^verbatim>\<open>try\<close> block of one iteration (lines 106 to 123).\<close>

definition try_fetch :: "network \<Rightarrow> request \<Rightarrow> string \<Rightarrow> dispatch \<Rightarrow> completion \<times> dispatch" where
  "try_fetch fetch req model d =
     (case fetch (length (fetched d)) req of
        Rejected e \<Rightarrow> (Throw e, d\<lparr>fetched := fetched d @ [req]\<rparr>)
      | Resolved r \<Rightarrow>
          (let d1 = d\<lparr>fetched := fetched d @ [req], response := Some r\<rparr> in
           if ok r then (Break, d1\<lparr>lastError := None\<rparr>)
           else
             (case response_text r of
                Inl e \<Rightarrow> (Throw e, d1)
              | Inr errorText \<Rightarrow>
                  (let d2 = d1\<lparr>errorLog := errorLog d1 @ [currentError model (status r) errorText]\<rparr>;
                       d3 = d2\<lparr>lastError := Some (all_models_failed (errorLog d2))\<rparr>
                   in if status r = 429 \<or> status r = 404 \<or> status r = 503
                      then (Continue, d3)
                      else (Throw (all_models_failed (errorLog d2)), d3)))))"

text \<open>
  One iteration (lines 56 to 128). \<open>mk\<close> is what precedes the \<^verbatim>\<open>try\<close> block: an exception
  it throws leaves the loop. Then the \<^verbatim>\<open>try\<close> block and, for whatever it throws, the
  \<^verbatim>\<open>catch\<close> clause under it (lines 124 to 128), which ends normally unless the candidate
  is the last.
\<close>

definition attempt ::
  "network \<Rightarrow> (string \<Rightarrow> exn + request) \<Rightarrow> string list \<Rightarrow> string \<Rightarrow> dispatch
     \<Rightarrow> completion \<times> dispatch"
where
  "attempt fetch mk ms model d =
     (case mk model of
        Inl error \<Rightarrow> (Throw error, d\<lparr>usedModel := model\<rparr>)
      | Inr req \<Rightarrow>
          (case try_fetch fetch req model (d\<lparr>usedModel := model\<rparr>) of
             (Throw e, d1) \<Rightarrow>
               (let d2 = d1\<lparr>lastError := Some e\<rparr> in
                if indexOf ms model = int (length ms) - 1 then (Break, d2) else (Normal, d2))
           | (c, d1) \<Rightarrow> (c, d1)))"

text \<open>
  \<^verbatim>\<open>for (const model of models)\<close> (lines 55 to 129): \<open>ms\<close> is the whole list, the fourth
  argument the candidates still to try. The result is the exception that left the loop,
  if one did, and the variables.
\<close>

fun for_models ::
  "network \<Rightarrow> (string \<Rightarrow> exn + request) \<Rightarrow> string list \<Rightarrow> string list \<Rightarrow> dispatch
     \<Rightarrow> exn option \<times> dispatch"
where
  "for_models fetch mk ms [] d = (None, d)"
| "for_models fetch mk ms (model # rest) d =
     (case attempt fetch mk ms model d of
        (Break, d1) \<Rightarrow> (None, d1)
      | (Throw error, d1) \<Rightarrow> (Some error, d1)
      | (c, d1) \<Rightarrow> for_models fetch mk ms rest d1)"

subsection \<open>The transcoder (lines 140 to 171)\<close>

text \<open>
  \<^verbatim>\<open>chunk.toString()\<close> decodes the bytes of one \<^verbatim>\<open>Buffer\<close> as UTF-8, on its own: every
  ill-formed sequence in it, and a sequence that its end cuts short, becomes U+FFFD
  (one for each maximal ill-formed part, as in the decoder of the WHATWG Encoding
  Standard). The second argument is the character being read: how many bytes it still
  needs, the bytes read so far, and the range of the next byte.
\<close>

definition replacement :: string where
  "replacement = [CHR 0xEF, CHR 0xBF, CHR 0xBD]"

definition lead :: "char \<Rightarrow> (nat \<times> nat \<times> nat) option" where
  "lead b =
     (let n = (of_char b :: nat) in
      if 0xC2 \<le> n \<and> n \<le> 0xDF then Some (1, 0x80, 0xBF)
      else if n = 0xE0 then Some (2, 0xA0, 0xBF)
      else if n = 0xED then Some (2, 0x80, 0x9F)
      else if 0xE1 \<le> n \<and> n \<le> 0xEF then Some (2, 0x80, 0xBF)
      else if n = 0xF0 then Some (3, 0x90, 0xBF)
      else if n = 0xF4 then Some (3, 0x80, 0x8F)
      else if 0xF1 \<le> n \<and> n \<le> 0xF3 then Some (3, 0x80, 0xBF)
      else None)"

fun utf8_decode :: "(nat \<times> bytes \<times> nat \<times> nat) option \<Rightarrow> bytes \<Rightarrow> string" where
  "utf8_decode None [] = []"
| "utf8_decode (Some st) [] = replacement"
| "utf8_decode None (b # bs) =
     (if (of_char b :: nat) < 0x80 then b # utf8_decode None bs
      else
        (case lead b of
           None \<Rightarrow> replacement @ utf8_decode None bs
         | Some (needed, lo, hi) \<Rightarrow> utf8_decode (Some (needed, [b], lo, hi)) bs))"
| "utf8_decode (Some (needed, seen, lo, hi)) (b # bs) =
     (if lo \<le> (of_char b :: nat) \<and> (of_char b :: nat) \<le> hi
      then
        (if needed \<le> 1 then seen @ [b] @ utf8_decode None bs
         else utf8_decode (Some (needed - 1, seen @ [b], 0x80, 0xBF)) bs)
      else replacement @ utf8_decode None (b # bs))"

definition Buffer_toString :: "bytes \<Rightarrow> string" where
  "Buffer_toString chunk = utf8_decode None chunk"

text \<open>What the controller of the output stream is asked to do, in order.\<close>

datatype event = Enqueue bytes | Close

text \<open>The variables of the parsing loop, and the calls on the controller so far.\<close>

record transcoder =
  buffer :: string
  capturedMetadata :: "json option"
  controller :: "event list"

definition transcoder_init :: transcoder where
  "transcoder_init = \<lparr>buffer = [], capturedMetadata = None, controller = []\<rparr>"

text \<open>
  The \<^verbatim>\<open>try\<close> block for one payload (lines 155 to 168). A payload that does not parse,
  and the payload \<^verbatim>\<open>null\<close> (reading \<^verbatim>\<open>data.candidates\<close> throws), change nothing: the
  \<^verbatim>\<open>catch\<close> clause is empty. Where line 160 reads the metadata a second time, the
  optional chain of line 159 has found it, and it is what line 159 tested. A text whose
  conversion to a string throws in \<^verbatim>\<open>encoder.encode\<close> (line 164) is not enqueued, and
  the metadata captured on line 160 stays.
\<close>

definition on_data :: "runtime \<Rightarrow> string \<Rightarrow> transcoder \<Rightarrow> transcoder" where
  "on_data rt jsonStr t =
     (case JSON_parse rt jsonStr of
        None \<Rightarrow> t
      | Some data \<Rightarrow>
          if data = JNull then t
          else
            (let candidate = opt_index0 (own data ''candidates'');
                 text = opt_prop (opt_index0 (opt_prop (opt_prop candidate ''content'') ''parts''))
                          ''text'';
                 groundingMetadata = opt_prop candidate ''groundingMetadata'';
                 t1 = (if truthy groundingMetadata
                       then t\<lparr>capturedMetadata := groundingMetadata\<rparr> else t)
             in if truthy text
                then (case to_String rt text of
                        Inl error \<Rightarrow> t1
                      | Inr s \<Rightarrow> t1\<lparr>controller := controller t1 @ [Enqueue s]\<rparr>)
                else t1))"

text \<open>One line (lines 151 to 169).\<close>

definition on_line :: "runtime \<Rightarrow> string \<Rightarrow> transcoder \<Rightarrow> transcoder" where
  "on_line rt line t =
     (if prefix ''data: '' (trim line)
      then (let jsonStr = drop 6 (trim line) in
            if jsonStr = ''[DONE]'' then t else on_data rt jsonStr t)
      else t)"

text \<open>
  One chunk, decoded (lines 145 to 170): \<^verbatim>\<open>lines.pop()\<close> takes the last piece off, which
  becomes the buffer; the other pieces are handled in order.
\<close>

definition on_text :: "runtime \<Rightarrow> string \<Rightarrow> transcoder \<Rightarrow> transcoder" where
  "on_text rt chunkStr t =
     (let lines = split_lines (buffer t @ chunkStr)
      in fold (on_line rt) (butlast lines)
           (t\<lparr>buffer := (if lines = [] then [] else last lines)\<rparr>))"

text \<open>One chunk (lines 144 to 170).\<close>

definition on_chunk :: "runtime \<Rightarrow> bytes \<Rightarrow> transcoder \<Rightarrow> transcoder" where
  "on_chunk rt chunk t = on_text rt (Buffer_toString chunk) t"

subsection \<open>The footer (lines 174 to 195)\<close>

text \<open>The callback of \<^verbatim>\<open>queries.map\<close> (line 179).\<close>

definition bullet :: "runtime \<Rightarrow> json \<Rightarrow> exn + string" where
  "bullet rt q = (case js_String rt q of Inl error \<Rightarrow> Inl error | Inr s \<Rightarrow> Inr (''* '' @ s))"

text \<open>Lines 175 to 180: \<open>Inr\<close> the footer text so far, \<open>Inl\<close> what was thrown.\<close>

definition queries_block :: "runtime \<Rightarrow> json \<Rightarrow> exn + string" where
  "queries_block rt md =
     (let queries = or_empty (own md ''webSearchQueries'') in
      case length_positive rt queries of
        Inl error \<Rightarrow> Inl error
      | Inr positive \<Rightarrow>
          if positive
          then
            (case queries of
               JArr qs \<Rightarrow>
                 (case map_throwing (bullet rt) qs of
                    Inl error \<Rightarrow> Inl error
                  | Inr items \<Rightarrow>
                      Inr ([CHR 0x0A, CHR 0x0A] @ ''**Search Queries Used:**'' @ [CHR 0x0A]
                           @ join [CHR 0x0A] items @ [CHR 0x0A]))
             | _ \<Rightarrow> Inl (TypeError (Not_a_function ''queries.map'')))
          else Inr [])"

text \<open>
  The line of one reference (line 187); \<open>n\<close> is \<^verbatim>\<open>index + 1\<close>, \<open>w\<close> is \<^verbatim>\<open>c.web\<close>. The
  title is converted before the uri.
\<close>

definition source_line :: "runtime \<Rightarrow> nat \<Rightarrow> json \<Rightarrow> exn + string" where
  "source_line rt n w =
     (case to_String rt (own w ''title'') of
        Inl error \<Rightarrow> Inl error
      | Inr title \<Rightarrow>
          (case to_String rt (own w ''uri'') of
             Inl error \<Rightarrow> Inl error
           | Inr uri \<Rightarrow>
               Inr (''*   ['' @ show_nat n @ ''] ['' @ title @ ''](''  @ uri @ '')'' @ [CHR 0x0A])))"

text \<open>
  What the callback of \<^verbatim>\<open>chunks.forEach\<close> appends for the element \<open>c\<close> at \<open>index\<close>
  (lines 186 to 188), \<open>c\<close> not being \<^verbatim>\<open>null\<close>: its line if \<^verbatim>\<open>c.web\<close> is truthy, nothing
  otherwise.
\<close>

definition listed :: "runtime \<Rightarrow> nat \<Rightarrow> json \<Rightarrow> exn + string" where
  "listed rt index c =
     (case own c ''web'' of
        None \<Rightarrow> Inr []
      | Some w \<Rightarrow> if truthy (Some w) then source_line rt (index + 1) w else Inr [])"

text \<open>
  \<^verbatim>\<open>chunks.forEach\<close> (lines 185 to 189) from the element at \<open>index\<close> on; reading
  \<^verbatim>\<open>c.web\<close> throws when the element is \<^verbatim>\<open>null\<close>.
\<close>

fun forEach_chunk :: "runtime \<Rightarrow> json list \<Rightarrow> nat \<Rightarrow> string \<Rightarrow> exn + string" where
  "forEach_chunk rt [] index footerText = Inr footerText"
| "forEach_chunk rt (c # cs) index footerText =
     (if c = JNull then Inl (TypeError (Cannot_read Null ''web''))
      else (case listed rt index c of
              Inl error \<Rightarrow> Inl error
            | Inr line \<Rightarrow> forEach_chunk rt cs (index + 1) (footerText @ line)))"

text \<open>Lines 182 to 190, given the footer text so far.\<close>

definition sources_block :: "runtime \<Rightarrow> json \<Rightarrow> string \<Rightarrow> exn + string" where
  "sources_block rt md footerText =
     (let chunks = or_empty (own md ''groundingChunks'') in
      case length_positive rt chunks of
        Inl error \<Rightarrow> Inl error
      | Inr positive \<Rightarrow>
          if positive
          then
            (case chunks of
               JArr cs \<Rightarrow>
                 forEach_chunk rt cs 0
                   (footerText @ [CHR 0x0A] @ ''**Reference Sources:**'' @ [CHR 0x0A])
             | _ \<Rightarrow> Inl (TypeError (Not_a_function ''chunks.forEach'')))
          else Inr footerText)"

definition footer :: "runtime \<Rightarrow> json \<Rightarrow> exn + string" where
  "footer rt md =
     (case queries_block rt md of
        Inl e \<Rightarrow> Inl e
      | Inr footerText \<Rightarrow> sources_block rt md footerText)"

text \<open>Lines 174 to 195.\<close>

definition append_sources :: "runtime \<Rightarrow> transcoder \<Rightarrow> exn + transcoder" where
  "append_sources rt t =
     (case capturedMetadata t of
        None \<Rightarrow> Inr t
      | Some md \<Rightarrow>
          if truthy (Some md)
          then
            (case footer rt md of
               Inl e \<Rightarrow> Inl e
             | Inr footerText \<Rightarrow>
                 Inr (if footerText \<noteq> []
                      then t\<lparr>controller := controller t
                             @ [Enqueue ([CHR 0x0A, CHR 0x0A] @ ''---'' @ [CHR 0x0A] @ footerText)]\<rparr>
                      else t))
          else Inr t)"

subsection \<open>The stream (lines 46 to 205) and the handler (lines 5 to 217)\<close>

text \<open>The cross mark U+274C.\<close>

definition cross_mark :: string where
  "cross_mark = [CHR 0xE2, CHR 0x9D, CHR 0x8C]"

text \<open>Lines 131 to 137: no candidate gave a usable response.\<close>

definition all_failed :: "runtime \<Rightarrow> dispatch \<Rightarrow> event list" where
  "all_failed rt d =
     (let errorMessage =
            (case lastError d of
               None \<Rightarrow> ''All models failed.''
             | Some e \<Rightarrow> if exn_message rt e = [] then ''All models failed.'' else exn_message rt e)
      in [Enqueue (cross_mark @ '' Error: '' @ errorMessage), Close])"

text \<open>The outer \<^verbatim>\<open>catch\<close> clause (lines 200 to 204), after the calls \<open>es\<close> on the controller.\<close>

definition on_error :: "runtime \<Rightarrow> exn \<Rightarrow> event list \<Rightarrow> event list" where
  "on_error rt error es =
     es @ [Enqueue ([CHR 0x0A, CHR 0x0A] @ cross_mark @ '' Internal Error: '' @ exn_message rt error),
           Close]"

text \<open>
  What follows the loop over the chunks: the exception \<open>thrown\<close> by the iteration, if
  any, goes to the outer \<^verbatim>\<open>catch\<close>, as does one thrown while the footer is built;
  otherwise the footer is written and the stream closed (lines 173 to 204).
\<close>

definition after_loop :: "runtime \<Rightarrow> exn option \<Rightarrow> transcoder \<Rightarrow> event list" where
  "after_loop rt thrown t =
     (case thrown of
        Some e \<Rightarrow> on_error rt e (controller t)
      | None \<Rightarrow>
          (case append_sources rt t of
             Inl e \<Rightarrow> on_error rt e (controller t)
           | Inr t1 \<Rightarrow> controller t1 @ [Close]))"

text \<open>Lines 140 to 204 for the winning response \<open>r\<close>.\<close>

definition relay :: "runtime \<Rightarrow> response \<Rightarrow> event list" where
  "relay rt r = after_loop rt (body_error r) (fold (on_chunk rt) (body r) transcoder_init)"

text \<open>
  \<^verbatim>\<open>start\<close>: the requests given to \<^verbatim>\<open>fetch\<close> and the calls on the controller, both in
  order. \<open>mk\<close> makes the request of a candidate, \<open>ms\<close> are the candidates. An exception
  that leaves the loop goes to the outer \<^verbatim>\<open>catch\<close>, the controller having received
  nothing yet.
\<close>

definition start ::
  "runtime \<Rightarrow> network \<Rightarrow> (string \<Rightarrow> exn + request) \<Rightarrow> string list
     \<Rightarrow> request list \<times> event list"
where
  "start rt fetch mk ms =
     (case for_models fetch mk ms ms dispatch_init of
        (Some error, d) \<Rightarrow> (fetched d, on_error rt error [])
      | (None, d) \<Rightarrow>
          (fetched d,
           case response d of
             None \<Rightarrow> all_failed rt d
           | Some r \<Rightarrow> if ok r then relay rt r else all_failed rt d))"

text \<open>
  What the handler returns: \<^verbatim>\<open>NextResponse.json(value, { status })\<close>, or
  \<^verbatim>\<open>new NextResponse(stream)\<close> with the calls the stream's controller receives.
\<close>

datatype http_response = Json_response json nat | Stream_response "event list"

text \<open>The outer \<^verbatim>\<open>catch\<close> clause of the handler (lines 210 to 216).\<close>

definition server_error :: "runtime \<Rightarrow> exn \<Rightarrow> http_response" where
  "server_error rt error =
     Json_response
       (JObj [(''error'', JStr (if exn_message rt error = [] then ''Internal Server Error''
                                else exn_message rt error))])
       500"

text \<open>
  \<^verbatim>\<open>POST\<close>: \<open>req_json\<close> is what \<^verbatim>\<open>await req.json()\<close> gives, a value or the exception it
  rejects with. The result is the response and the requests given to \<^verbatim>\<open>fetch\<close>.
  Destructuring \<^verbatim>\<open>null\<close> throws (line 7); what \<^verbatim>\<open>history.map\<close> (line 24) or the
  template literal of line 32 throws goes to the outer \<^verbatim>\<open>catch\<close> as well.
\<close>

definition POST ::
  "runtime \<Rightarrow> env \<Rightarrow> exn + json \<Rightarrow> network \<Rightarrow> http_response \<times> request list"
where
  "POST rt e req_json fetch =
     (case req_json of
        Inl error \<Rightarrow> (server_error rt error, [])
      | Inr b \<Rightarrow>
          if b = JNull then (server_error rt (TypeError (Cannot_destructure Null)), [])
          else
            (let message = own b ''message''; history = own b ''history'' in
             case GEMINI_API_KEY e of
               None \<Rightarrow>
                 (Json_response
                    (JObj [(''error'',
                            JStr ''GEMINI_API_KEY is not defined in environment variables'')])
                    500, [])
             | Some apiKey \<Rightarrow>
                 if apiKey = []
                 then
                   (Json_response
                      (JObj [(''error'',
                              JStr ''GEMINI_API_KEY is not defined in environment variables'')])
                      500, [])
                 else
                   (case history_map history of
                      Inl error \<Rightarrow> (server_error rt error, [])
                    | Inr contents \<Rightarrow>
                        (case user_turn rt message of
                           Inl error \<Rightarrow> (server_error rt error, [])
                         | Inr current \<Rightarrow>
                             (let run = start rt fetch
                                          (request_for rt e apiKey (contents @ [current]))
                                          models
                              in (Stream_response (snd run), fst run))))))"

subsection \<open>Notions for the statements\<close>

text \<open>
  What one line, handled on its own, captures and makes the controller do; the complete
  lines of a body, which are the pieces of the decoded chunks that a line feed ends;
  the last element of a list that is not \<open>None\<close>.
\<close>

definition metadata_of :: "runtime \<Rightarrow> string \<Rightarrow> json option" where
  "metadata_of rt line = capturedMetadata (on_line rt line transcoder_init)"

definition emitted_by :: "runtime \<Rightarrow> string \<Rightarrow> event list" where
  "emitted_by rt line = controller (on_line rt line transcoder_init)"

definition complete_lines :: "bytes list \<Rightarrow> string list" where
  "complete_lines chunks = butlast (split_lines (concat (map Buffer_toString chunks)))"

text \<open>
  A value that is converted to a string without an exception: it is not an object with
  an own property \<^verbatim>\<open>toString\<close>, nor an array with such an object among its elements, at
  any depth of arrays.
\<close>

fun convertible :: "json \<Rightarrow> bool"
  and convertibles :: "json list \<Rightarrow> bool"
where
  "convertible (JObj kvs) = (map_of kvs ''toString'' = None)"
| "convertible (JArr xs) = convertibles xs"
| "convertible v = True"
| "convertibles [] = True"
| "convertibles (x # xs) = (convertible x \<and> convertibles xs)"

fun last_some :: "'a option list \<Rightarrow> 'a option" where
  "last_some [] = None"
| "last_some (x # xs) = (case last_some xs of None \<Rightarrow> x | Some y \<Rightarrow> Some y)"

subsection \<open>A runtime for the examples\<close>

text \<open>
  The examples run on the runtime \<open>node\<close>. Its \<^verbatim>\<open>JSON.parse\<close> is the parser below: a
  lexer, then a parser with a stack over the tokens. On the texts it accepts it gives
  what \<^verbatim>\<open>JSON.parse\<close> gives; it does not accept an escape \<^verbatim>\<open>\u\<close> in a string, nor a
  number with a fraction, an exponent or more than fifteen digits, which \<^verbatim>\<open>JSON.parse\<close>
  accepts. No example contains one.
\<close>

datatype token = LBrace | RBrace | LBracket | RBracket | Colon | Comma | Literal json

datatype lex_state =
    Ground
  | In_string string
  | In_escape string
  | In_number bool string
  | In_word string json

definition is_digit :: "char \<Rightarrow> bool" where
  "is_digit c = (48 \<le> (of_char c :: nat) \<and> (of_char c :: nat) \<le> 57)"

fun digits_value :: "nat \<Rightarrow> string \<Rightarrow> nat" where
  "digits_value acc [] = acc"
| "digits_value acc (c # cs) = digits_value (10 * acc + ((of_char c :: nat) - 48)) cs"

definition number :: "bool \<Rightarrow> string \<Rightarrow> json option" where
  "number negative ds =
     (if ds = [] \<or> 15 < length ds \<or> (1 < length ds \<and> hd ds = CHR ''0'') then None
      else Some (JNum (if negative then - real (digits_value 0 ds) else real (digits_value 0 ds))))"

definition unescape :: "char \<Rightarrow> char option" where
  "unescape c =
     (if c = CHR 0x22 \<or> c = CHR 0x5C \<or> c = CHR ''/'' then Some c
      else if c = CHR ''b'' then Some (CHR 0x08)
      else if c = CHR ''f'' then Some (CHR 0x0C)
      else if c = CHR ''n'' then Some (CHR 0x0A)
      else if c = CHR ''r'' then Some (CHR 0x0D)
      else if c = CHR ''t'' then Some (CHR 0x09)
      else None)"

definition emit :: "token \<Rightarrow> token list option \<Rightarrow> token list option" where
  "emit t r = (case r of None \<Rightarrow> None | Some ts \<Rightarrow> Some (t # ts))"

function (sequential) lex :: "lex_state \<Rightarrow> string \<Rightarrow> token list option" where
  "lex Ground [] = Some []"
| "lex (In_number negative ds) [] =
     (case number negative ds of None \<Rightarrow> None | Some n \<Rightarrow> Some [Literal n])"
| "lex st [] = None"
| "lex Ground (c # cs) =
     (if c = CHR '' '' \<or> c = CHR 0x09 \<or> c = CHR 0x0A \<or> c = CHR 0x0D then lex Ground cs
      else if c = CHR ''{'' then emit LBrace (lex Ground cs)
      else if c = CHR ''}'' then emit RBrace (lex Ground cs)
      else if c = CHR ''['' then emit LBracket (lex Ground cs)
      else if c = CHR '']'' then emit RBracket (lex Ground cs)
      else if c = CHR '':'' then emit Colon (lex Ground cs)
      else if c = CHR '','' then emit Comma (lex Ground cs)
      else if c = CHR 0x22 then lex (In_string []) cs
      else if c = CHR ''-'' then lex (In_number True []) cs
      else if is_digit c then lex (In_number False [c]) cs
      else if c = CHR ''t'' then lex (In_word ''rue'' (JBool True)) cs
      else if c = CHR ''f'' then lex (In_word ''alse'' (JBool False)) cs
      else if c = CHR ''n'' then lex (In_word ''ull'' JNull) cs
      else None)"
| "lex (In_string acc) (c # cs) =
     (if c = CHR 0x22 then emit (Literal (JStr acc)) (lex Ground cs)
      else if c = CHR 0x5C then lex (In_escape acc) cs
      else if (of_char c :: nat) < 0x20 then None
      else lex (In_string (acc @ [c])) cs)"
| "lex (In_escape acc) (c # cs) =
     (case unescape c of None \<Rightarrow> None | Some x \<Rightarrow> lex (In_string (acc @ [x])) cs)"
| "lex (In_number negative ds) (c # cs) =
     (if is_digit c then lex (In_number negative (ds @ [c])) cs
      else (case number negative ds of
              None \<Rightarrow> None
            | Some n \<Rightarrow> emit (Literal n) (lex Ground (c # cs))))"
| "lex (In_word [] v) (c # cs) = None"
| "lex (In_word (x # xs) v) (c # cs) =
     (if c \<noteq> x then None
      else if xs = [] then emit (Literal v) (lex Ground cs)
      else lex (In_word xs v) cs)"
  by pat_completeness auto
termination
  by (relation "measure (\<lambda>(st, s). 2 * length s + (case st of In_number n ds \<Rightarrow> 1 | _ \<Rightarrow> 0))")
     (auto split: lex_state.splits)

text \<open>
  The parser: what it expects next, and the arrays and objects it is inside of, the
  innermost first. A key given twice keeps its place and takes the later value.
\<close>

datatype frame = Arr "json list" | Obj "(string \<times> json) list" | Key "(string \<times> json) list" string

datatype expect = Value | Value_or_end | Key_or_end | A_key | A_colon | Separator | Done json

fun put :: "(string \<times> json) list \<Rightarrow> string \<Rightarrow> json \<Rightarrow> (string \<times> json) list" where
  "put [] k v = [(k, v)]"
| "put ((k', v') # kvs) k v = (if k' = k then (k', v) # kvs else (k', v') # put kvs k v)"

fun deliver :: "json \<Rightarrow> frame list \<Rightarrow> (expect \<times> frame list) option" where
  "deliver v [] = Some (Done v, [])"
| "deliver v (Arr xs # fs) = Some (Separator, Arr (xs @ [v]) # fs)"
| "deliver v (Key kvs k # fs) = Some (Separator, Obj (put kvs k v) # fs)"
| "deliver v (Obj kvs # fs) = None"

definition close_array :: "frame list \<Rightarrow> (expect \<times> frame list) option" where
  "close_array fs = (case fs of Arr xs # fs' \<Rightarrow> deliver (JArr xs) fs' | _ \<Rightarrow> None)"

definition close_object :: "frame list \<Rightarrow> (expect \<times> frame list) option" where
  "close_object fs = (case fs of Obj kvs # fs' \<Rightarrow> deliver (JObj kvs) fs' | _ \<Rightarrow> None)"

definition open_value :: "token \<Rightarrow> frame list \<Rightarrow> (expect \<times> frame list) option" where
  "open_value t fs =
     (case t of
        Literal v \<Rightarrow> deliver v fs
      | LBracket \<Rightarrow> Some (Value_or_end, Arr [] # fs)
      | LBrace \<Rightarrow> Some (Key_or_end, Obj [] # fs)
      | _ \<Rightarrow> None)"

definition read_key :: "token \<Rightarrow> frame list \<Rightarrow> (expect \<times> frame list) option" where
  "read_key t fs =
     (case (t, fs) of
        (Literal (JStr k), Obj kvs # fs') \<Rightarrow> Some (A_colon, Key kvs k # fs')
      | _ \<Rightarrow> None)"

fun parse_step :: "token \<Rightarrow> expect \<times> frame list \<Rightarrow> (expect \<times> frame list) option" where
  "parse_step t (Value, fs) = open_value t fs"
| "parse_step t (Value_or_end, fs) = (if t = RBracket then close_array fs else open_value t fs)"
| "parse_step t (Key_or_end, fs) = (if t = RBrace then close_object fs else read_key t fs)"
| "parse_step t (A_key, fs) = read_key t fs"
| "parse_step t (A_colon, fs) = (if t = Colon then Some (Value, fs) else None)"
| "parse_step t (Separator, fs) =
     (if t = RBracket then close_array fs
      else if t = RBrace then close_object fs
      else if t = Comma
      then (case fs of
              Arr xs # fs' \<Rightarrow> Some (Value, fs)
            | Obj kvs # fs' \<Rightarrow> Some (A_key, fs)
            | _ \<Rightarrow> None)
      else None)"
| "parse_step t (Done v, fs) = None"

fun parse_tokens :: "token list \<Rightarrow> expect \<times> frame list \<Rightarrow> json option" where
  "parse_tokens [] (Done v, []) = Some v"
| "parse_tokens [] st = None"
| "parse_tokens (t # ts) st =
     (case parse_step t st of None \<Rightarrow> None | Some st' \<Rightarrow> parse_tokens ts st')"

definition parse_json :: "string \<Rightarrow> json option" where
  "parse_json s = (case lex Ground s of None \<Rightarrow> None | Some ts \<Rightarrow> parse_tokens ts (Value, []))"

text \<open>
  Numbers print as integers, the only numbers the parser gives; \<^verbatim>\<open>Number\<close> reads the
  empty string and the strings of digits; the \<^verbatim>\<open>TypeError\<close> messages are in the wording
  of V8; the constructor of the agent returns an agent for every proxy URL (the
  examples set no proxy but the last, which also takes a constructor that throws).
\<close>

definition print_number :: "real \<Rightarrow> string" where
  "print_number n = (if n < 0 then ''-'' @ show_nat (nat \<lfloor>- n\<rfloor>) else show_nat (nat \<lfloor>n\<rfloor>))"

definition read_number :: "string \<Rightarrow> real option" where
  "read_number s = (if list_all is_digit s then Some (real (digits_value 0 s)) else None)"

fun v8_message :: "type_error \<Rightarrow> string" where
  "v8_message (Not_a_function f) = f @ '' is not a function''"
| "v8_message (Cannot_read n k) =
     ''Cannot read properties of '' @ (case n of Null \<Rightarrow> ''null'' | Undefined \<Rightarrow> ''undefined'')
       @ '' (reading '' @ [CHR 0x27] @ k @ [CHR 0x27] @ '')''"
| "v8_message (Cannot_destructure n) =
     ''Cannot destructure property 'message' of '(intermediate value)' as it is ''
       @ (case n of Null \<Rightarrow> ''null'' | Undefined \<Rightarrow> ''undefined'') @ ''.''"
| "v8_message Cannot_convert = ''Cannot convert object to primitive value''"
| "v8_message Invalid_URL = ''Invalid URL''"

definition node :: runtime where
  "node = \<lparr>JSON_parse = parse_json, Number_toString = print_number,
            String_toNumber = read_number, TypeError_message = v8_message,
            HttpsProxyAgent = (\<lambda>proxyUrl. None)\<rparr>"

subsection \<open>Inputs of the examples\<close>

text \<open>
  A response with a given status and error text, and one whose text is not read
  (\<^verbatim>\<open>response.text()\<close> rejects); the network that answers every call
  with the same response, and the one that answers the first call with one response
  and every later call with another; an environment with a credential.
\<close>

definition failing :: "nat \<Rightarrow> string \<Rightarrow> response" where
  "failing st errorText =
     \<lparr>status = st, response_text = Inr errorText, body = [], body_error = None\<rparr>"

definition unreadable :: "nat \<Rightarrow> exn \<Rightarrow> response" where
  "unreadable st error =
     \<lparr>status = st, response_text = Inl error, body = [], body_error = None\<rparr>"

definition always :: "response \<Rightarrow> network" where
  "always r i req = Resolved r"

definition first_then :: "response \<Rightarrow> response \<Rightarrow> network" where
  "first_then r1 r2 i req = Resolved (if i = 0 then r1 else r2)"

definition env0 :: env where
  "env0 = \<lparr>GEMINI_API_KEY = Some ''k'', HTTPS_PROXY = None, GEMINI_BASE_URL = None\<rparr>"

text \<open>
  Lines of an upstream body: one with a text delta, one with grounding metadata that
  holds a search query, one with grounding metadata whose first reference has no
  \<^verbatim>\<open>web\<close> entry; a response with status 200 that yields the given chunks and then ends,
  or fails with the given exception; grounding metadata with three references, the
  second without a \<^verbatim>\<open>web\<close> entry.
\<close>

definition text_line :: "string \<Rightarrow> string" where
  \<open>text_line t = ''data: {"candidates":[{"content":{"parts":[{"text":"'' @ t @ ''"}]}}]}''\<close>

definition queries_line :: "string \<Rightarrow> string" where
  \<open>queries_line q =
     ''data: {"candidates":[{"groundingMetadata":{"webSearchQueries":["'' @ q @ ''"]}}]}''\<close>


definition streamed :: "bytes list \<Rightarrow> exn option \<Rightarrow> response" where
  "streamed chunks thrown =
     \<lparr>status = 200, response_text = Inr [], body = chunks, body_error = thrown\<rparr>"


text \<open>A request body with a prompt and no prior turns; an environment without a credential.\<close>

definition hello :: json where
  "hello = JObj [(''message'', JStr ''What is the capital of France?''), (''history'', JArr [])]"

definition no_key :: env where
  "no_key = \<lparr>GEMINI_API_KEY = None, HTTPS_PROXY = None, GEMINI_BASE_URL = None\<rparr>"

section \<open>Properties\<close>

subsection \<open>The output stream is closed exactly once\<close>

text \<open>Nothing before the end of the stream closes the controller.\<close>

lemma on_data_no_close:
  "Close \<notin> set (controller t) \<Longrightarrow> Close \<notin> set (controller (on_data rt j t))"
  by (auto simp: on_data_def Let_def split: option.splits sum.splits)

lemma on_line_no_close:
  "Close \<notin> set (controller t) \<Longrightarrow> Close \<notin> set (controller (on_line rt l t))"
  by (simp add: on_line_def Let_def on_data_no_close)

lemma fold_on_line_no_close:
  "Close \<notin> set (controller t) \<Longrightarrow> Close \<notin> set (controller (fold (on_line rt) ls t))"
  by (induction ls arbitrary: t) (simp_all add: on_line_no_close)

lemma on_chunk_no_close:
  "Close \<notin> set (controller t) \<Longrightarrow> Close \<notin> set (controller (on_chunk rt c t))"
  by (simp add: on_chunk_def on_text_def Let_def fold_on_line_no_close)

lemma fold_on_chunk_no_close:
  "Close \<notin> set (controller t) \<Longrightarrow> Close \<notin> set (controller (fold (on_chunk rt) cs t))"
  by (induction cs arbitrary: t) (simp_all add: on_chunk_no_close)

lemma append_sources_no_close:
  "Close \<notin> set (controller t) \<Longrightarrow> append_sources rt t = Inr t1 \<Longrightarrow> Close \<notin> set (controller t1)"
  by (auto simp: append_sources_def split: option.splits if_splits sum.splits)

lemma on_error_closes_once:
  "Close \<notin> set es \<Longrightarrow> \<exists>es'. on_error rt e es = es' @ [Close] \<and> Close \<notin> set es'"
  by (simp add: on_error_def)

lemma after_loop_closes_once:
  assumes "Close \<notin> set (controller t)"
  shows "\<exists>es. after_loop rt thrown t = es @ [Close] \<and> Close \<notin> set es"
proof (cases thrown)
  case (Some e)
  then show ?thesis
    using on_error_closes_once[OF assms] by (simp add: after_loop_def)
next
  case None
  show ?thesis
  proof (cases "append_sources rt t")
    case (Inl e)
    with None show ?thesis
      using on_error_closes_once[OF assms] by (simp add: after_loop_def)
  next
    case (Inr t1)
    with None have "after_loop rt thrown t = controller t1 @ [Close]"
      by (simp add: after_loop_def)
    moreover have "Close \<notin> set (controller t1)"
      using append_sources_no_close[OF assms Inr] .
    ultimately show ?thesis by blast
  qed
qed

lemma relay_closes_once:
  "\<exists>es. relay rt r = es @ [Close] \<and> Close \<notin> set es"
  unfolding relay_def
  by (rule after_loop_closes_once, rule fold_on_chunk_no_close) (simp add: transcoder_init_def)

lemma all_failed_closes_once:
  "\<exists>es. all_failed rt d = es @ [Close] \<and> Close \<notin> set es"
  by (simp add: all_failed_def Let_def)

text \<open>
  Claim C5. On every exit path of the stream (the upstream stream ends and the footer
  is written, no candidate gives a usable response, an exception is thrown after
  content has been emitted) the controller is closed, the call of \<^verbatim>\<open>close\<close> is the last
  call it receives, and there is no other: for every network, every runtime and every
  list of candidates, the calls on the controller are calls of \<^verbatim>\<open>enqueue\<close> followed by
  one \<^verbatim>\<open>close\<close>.
\<close>

theorem closed_exactly_once:
  "\<exists>es. snd (start rt fetch mk ms) = es @ [Close] \<and> Close \<notin> set es"
proof (cases "for_models fetch mk ms ms dispatch_init")
  case (Pair thrown d)
  show ?thesis
  proof (cases thrown)
    case (Some error)
    with Pair show ?thesis by (simp add: start_def on_error_def)
  next
    case None
    with Pair show ?thesis
      by (simp add: start_def relay_closes_once all_failed_closes_once split: option.splits)
  qed
qed

subsection \<open>The dispatcher\<close>

text \<open>The requests given to \<^verbatim>\<open>fetch\<close> are those of the loop, however it ends.\<close>

lemma fst_start:
  "fst (start rt fetch mk ms) = fetched (snd (for_models fetch mk ms ms dispatch_init))"
  by (cases "for_models fetch mk ms ms dispatch_init")
     (auto simp: start_def split: option.splits)

lemma indexOf_prefix: "indexOf (pre @ x # post) x \<le> int (length pre)"
  by (induction pre) (auto simp: Let_def)

text \<open>
  A candidate whose request is made and whose response is not a success sends the loop
  on, unless the \<^verbatim>\<open>catch\<close> clause finds it to be the last.
\<close>

lemma attempt_not_ok:
  assumes "mk model = Inr req" and "fetch (length (fetched d)) req = Resolved r" and "\<not> ok r"
  shows "\<exists>c d1. attempt fetch mk ms model d = (c, d1) \<and> fetched d1 = fetched d @ [req]
           \<and> (c = Continue \<or> c = Normal \<or> (c = Break \<and> indexOf ms model = int (length ms) - 1))"
  using assms by (auto simp: attempt_def try_fetch_def Let_def split: sum.splits)

lemma for_models_all_fetched:
  assumes "ms = pre @ rest" and "length reqs = length rest"
    and "\<forall>j<length rest. mk (rest ! j) = Inr (reqs ! j)
           \<and> (\<exists>r. fetch (length (fetched d) + j) (reqs ! j) = Resolved r \<and> \<not> ok r)"
  shows "fst (for_models fetch mk ms rest d) = None
       \<and> fetched (snd (for_models fetch mk ms rest d)) = fetched d @ reqs"
  using assms
proof (induction rest arbitrary: pre d reqs)
  case Nil
  then show ?case by simp
next
  case (Cons model rest)
  from Cons.prems(2) obtain req reqs' where reqs: "reqs = req # reqs'"
    and lreqs: "length reqs' = length rest"
    by (cases reqs) auto
  from Cons.prems(3)[rule_format, of 0] obtain r
    where h0: "mk model = Inr req" "fetch (length (fetched d)) req = Resolved r" "\<not> ok r"
    by (auto simp: reqs)
  from attempt_not_ok[where mk = mk and model = model and req = req and fetch = fetch and d = d
         and r = r and ms = ms, OF h0] obtain c d1
    where step: "attempt fetch mk ms model d = (c, d1)"
      and f1: "fetched d1 = fetched d @ [req]"
      and c: "c = Continue \<or> c = Normal \<or> (c = Break \<and> indexOf ms model = int (length ms) - 1)"
    by blast
  have hyp: "\<forall>j<length rest. mk (rest ! j) = Inr (reqs' ! j)
           \<and> (\<exists>r. fetch (length (fetched d1) + j) (reqs' ! j) = Resolved r \<and> \<not> ok r)"
  proof (intro allI impI)
    fix j assume "j < length rest"
    then show "mk (rest ! j) = Inr (reqs' ! j)
           \<and> (\<exists>r. fetch (length (fetched d1) + j) (reqs' ! j) = Resolved r \<and> \<not> ok r)"
      using Cons.prems(3)[rule_format, of "Suc j"] by (simp add: reqs f1)
  qed
  have ms: "ms = (pre @ [model]) @ rest" using Cons.prems(1) by simp
  note IH = Cons.IH[OF ms lreqs hyp]
  show ?case
  proof (cases "c = Break")
    case False
    with c have "for_models fetch mk ms (model # rest) d = for_models fetch mk ms rest d1"
      by (auto simp: step)
    with IH show ?thesis by (simp add: f1 reqs)
  next
    case True
    with c have "indexOf ms model = int (length ms) - 1" by simp
    moreover have "indexOf ms model \<le> int (length pre)"
      using indexOf_prefix[of pre model rest] Cons.prems(1) by simp
    ultimately have "rest = []" using Cons.prems(1) by simp
    with lreqs have "reqs' = []" by simp
    with True show ?thesis by (simp add: step f1 reqs)
  qed
qed

text \<open>A candidate that answers with a retryable status, and whose text is read, sends the loop on.\<close>

lemma attempt_retryable:
  assumes "mk model = Inr req" and "fetch (length (fetched d)) req = Resolved r"
    and "status r = 429 \<or> status r = 404 \<or> status r = 503"
    and "response_text r = Inr t"
  shows "attempt fetch mk ms model d =
           (Continue, d\<lparr>usedModel := model, fetched := fetched d @ [req], response := Some r,
              errorLog := errorLog d @ [currentError model (status r) t],
              lastError := Some (all_models_failed (errorLog d @ [currentError model (status r) t]))\<rparr>)"
proof -
  have "\<not> ok r" using assms(3) by (auto simp: ok_def)
  then show ?thesis
    using assms by (simp add: attempt_def try_fetch_def Let_def)
qed

lemma for_models_retryable:
  assumes "length reqs = length rest" and "length rs = length rest" and "length ts = length rest"
    and "\<forall>j<length rest. mk (rest ! j) = Inr (reqs ! j)
           \<and> fetch (length (fetched d) + j) (reqs ! j) = Resolved (rs ! j)
           \<and> (status (rs ! j) = 429 \<or> status (rs ! j) = 404 \<or> status (rs ! j) = 503)
           \<and> response_text (rs ! j) = Inr (ts ! j)"
  shows "fst (for_models fetch mk ms rest d) = None
       \<and> fetched (snd (for_models fetch mk ms rest d)) = fetched d @ reqs
       \<and> errorLog (snd (for_models fetch mk ms rest d))
           = errorLog d @ map (\<lambda>(m, r, t). currentError m (status r) t) (zip rest (zip rs ts))
       \<and> (if rest = [] then snd (for_models fetch mk ms rest d) = d
          else lastError (snd (for_models fetch mk ms rest d))
                 = Some (all_models_failed (errorLog (snd (for_models fetch mk ms rest d))))
             \<and> response (snd (for_models fetch mk ms rest d)) = Some (last rs))"
  using assms
proof (induction rest arbitrary: d reqs rs ts)
  case Nil
  then show ?case by simp
next
  case (Cons model rest)
  from Cons.prems(1) obtain req reqs' where reqs: "reqs = req # reqs'"
    and lreqs: "length reqs' = length rest"
    by (cases reqs) auto
  from Cons.prems(2) obtain r rs' where rs: "rs = r # rs'" and lrs: "length rs' = length rest"
    by (cases rs) auto
  from Cons.prems(3) obtain t ts' where ts: "ts = t # ts'" and lts: "length ts' = length rest"
    by (cases ts) auto
  let ?d1 = "d\<lparr>usedModel := model, fetched := fetched d @ [req], response := Some r,
              errorLog := errorLog d @ [currentError model (status r) t],
              lastError := Some (all_models_failed (errorLog d @ [currentError model (status r) t]))\<rparr>"
  have h0: "mk model = Inr req \<and> fetch (length (fetched d)) req = Resolved r
           \<and> (status r = 429 \<or> status r = 404 \<or> status r = 503) \<and> response_text r = Inr t"
    using Cons.prems(4)[rule_format, of 0] by (simp add: reqs rs ts)
  have step: "attempt fetch mk ms model d = (Continue, ?d1)"
    using h0 by (intro attempt_retryable) auto
  have hyp: "\<forall>j<length rest. mk (rest ! j) = Inr (reqs' ! j)
           \<and> fetch (length (fetched ?d1) + j) (reqs' ! j) = Resolved (rs' ! j)
           \<and> (status (rs' ! j) = 429 \<or> status (rs' ! j) = 404 \<or> status (rs' ! j) = 503)
           \<and> response_text (rs' ! j) = Inr (ts' ! j)"
  proof (intro allI impI)
    fix j assume "j < length rest"
    then show "mk (rest ! j) = Inr (reqs' ! j)
           \<and> fetch (length (fetched ?d1) + j) (reqs' ! j) = Resolved (rs' ! j)
           \<and> (status (rs' ! j) = 429 \<or> status (rs' ! j) = 404 \<or> status (rs' ! j) = 503)
           \<and> response_text (rs' ! j) = Inr (ts' ! j)"
      using Cons.prems(4)[rule_format, of "Suc j"] by (simp add: reqs rs ts)
  qed
  note IH = Cons.IH[OF lreqs lrs lts hyp]
  show ?case
  proof (cases "rest = []")
    case True
    with lrs have "rs' = []" by simp
    with True IH show ?thesis by (simp add: step reqs rs ts)
  next
    case False
    with lrs have "rs' \<noteq> []" by auto
    with False IH show ?thesis by (simp add: step reqs rs ts)
  qed
qed

lemma map_zip3_nth:
  assumes "length rs = length ms" and "length ts = length ms"
  shows "map (\<lambda>(m, r, t). f m r t) (zip ms (zip rs ts))
           = map (\<lambda>i. f (ms ! i) (rs ! i) (ts ! i)) [0..<length ms]"
  using assms by (intro nth_equalityI) auto

text \<open>
  Claim C3, amended. If every candidate answers with status 429, 404 or 503 (the request
  of the \<open>i\<close>-th candidate is made, and the \<open>i\<close>-th call of \<^verbatim>\<open>fetch\<close>, made with it,
  resolves with such a response), then \<^verbatim>\<open>fetch\<close> is called once for every candidate,
  in the order of the list. If moreover the text of every one of these responses is
  read (\<^verbatim>\<open>response.text()\<close> resolves), the stream receives one message and is closed,
  and for a list that is not empty the message holds, separated by \<^verbatim>\<open> | \<close>, the model,
  the status and the error text of every attempt.
\<close>

theorem all_retryable_tries_every_candidate:
  assumes "length reqs = length ms" and "length rs = length ms" and "length ts = length ms"
    and "\<forall>i<length ms. mk (ms ! i) = Inr (reqs ! i) \<and> fetch i (reqs ! i) = Resolved (rs ! i)
           \<and> (status (rs ! i) = 429 \<or> status (rs ! i) = 404 \<or> status (rs ! i) = 503)"
  shows "fst (start rt fetch mk ms) = reqs
       \<and> ((\<forall>i<length ms. response_text (rs ! i) = Inr (ts ! i)) \<longrightarrow>
           snd (start rt fetch mk ms) =
             [Enqueue (cross_mark @ '' Error: '' @
                (if ms = [] then ''All models failed.''
                 else ''Gemini API Error: All models failed. Details: '' @
                   join '' | '' (map (\<lambda>i. ''Model '' @ ms ! i @ '': '' @ show_nat (status (rs ! i))
                                         @ '' - '' @ ts ! i) [0..<length ms]))),
              Close])"
proof (intro conjI impI)
  have "\<forall>j<length ms. mk (ms ! j) = Inr (reqs ! j)
           \<and> (\<exists>r. fetch (length (fetched dispatch_init) + j) (reqs ! j) = Resolved r \<and> \<not> ok r)"
  proof (intro allI impI)
    fix j assume "j < length ms"
    with assms(4) have "mk (ms ! j) = Inr (reqs ! j)" "fetch j (reqs ! j) = Resolved (rs ! j)"
      "status (rs ! j) = 429 \<or> status (rs ! j) = 404 \<or> status (rs ! j) = 503"
      by auto
    moreover from this(3) have "\<not> ok (rs ! j)" by (auto simp: ok_def)
    ultimately show "mk (ms ! j) = Inr (reqs ! j)
           \<and> (\<exists>r. fetch (length (fetched dispatch_init) + j) (reqs ! j) = Resolved r \<and> \<not> ok r)"
      by (auto simp: dispatch_init_def)
  qed
  from for_models_all_fetched[where pre = "[]", OF _ assms(1) this]
  show "fst (start rt fetch mk ms) = reqs"
    by (simp add: fst_start dispatch_init_def)
next
  assume texts: "\<forall>i<length ms. response_text (rs ! i) = Inr (ts ! i)"
  let ?run = "for_models fetch mk ms ms dispatch_init"
  let ?d = "snd ?run"
  have hyp: "\<forall>j<length ms. mk (ms ! j) = Inr (reqs ! j)
           \<and> fetch (length (fetched dispatch_init) + j) (reqs ! j) = Resolved (rs ! j)
           \<and> (status (rs ! j) = 429 \<or> status (rs ! j) = 404 \<or> status (rs ! j) = 503)
           \<and> response_text (rs ! j) = Inr (ts ! j)"
    using assms(4) texts by (simp add: dispatch_init_def)
  note F = for_models_retryable[OF assms(1,2,3) hyp, of ms]
  from F have run: "?run = (None, ?d)" by (simp add: prod_eq_iff)
  have elog: "errorLog ?d = map (\<lambda>i. currentError (ms ! i) (status (rs ! i)) (ts ! i)) [0..<length ms]"
    using F map_zip3_nth[OF assms(2,3), of "\<lambda>m r t. currentError m (status r) t"]
    by (simp add: dispatch_init_def)
  have out: "snd (start rt fetch mk ms)
           = (case response ?d of None \<Rightarrow> all_failed rt ?d
              | Some r \<Rightarrow> if ok r then relay rt r else all_failed rt ?d)"
    by (subst start_def, subst run) simp
  show "snd (start rt fetch mk ms) =
             [Enqueue (cross_mark @ '' Error: '' @
                (if ms = [] then ''All models failed.''
                 else ''Gemini API Error: All models failed. Details: '' @
                   join '' | '' (map (\<lambda>i. ''Model '' @ ms ! i @ '': '' @ show_nat (status (rs ! i))
                                         @ '' - '' @ ts ! i) [0..<length ms]))),
              Close]"
  proof (cases "ms = []")
    case True
    then show ?thesis
      by (simp add: start_def all_failed_def dispatch_init_def)
  next
    case False
    with F have le: "lastError ?d = Some (all_models_failed (errorLog ?d))"
      and resp: "response ?d = Some (last rs)" by simp_all
    from False assms(2) have "rs \<noteq> []" by auto
    then have "last rs = rs ! (length ms - 1)" using assms(2) by (simp add: last_conv_nth)
    moreover have "length ms - 1 < length ms" using False by simp
    ultimately have "status (last rs) = 429 \<or> status (last rs) = 404 \<or> status (last rs) = 503"
      using assms(4) by metis
    then have nok: "\<not> ok (last rs)" by (auto simp: ok_def)
    have cur: "(\<lambda>i. currentError (ms ! i) (status (rs ! i)) (ts ! i))
             = (\<lambda>i. ''Model '' @ ms ! i @ '': '' @ show_nat (status (rs ! i)) @ '' - '' @ ts ! i)"
      by (simp add: currentError_def fun_eq_iff)
    show ?thesis
      using False nok
      by (simp add: out resp all_failed_def le all_models_failed_def elog cur)
  qed
qed

theorem all_retryable_witness:
  "start node (first_then (failing 429 ''busy'') (failing 503 ''down''))
     (request_for node env0 ''k'' []) [''gemini-2.0-flash'', ''gemini-1.5-pro'']
   = ([request_of None env0 ''k'' [] ''gemini-2.0-flash'',
       request_of None env0 ''k'' [] ''gemini-1.5-pro''],
      [Enqueue (cross_mark @ '' Error: Gemini API Error: All models failed. Details: ''
                @ ''Model gemini-2.0-flash: 429 - busy | Model gemini-1.5-pro: 503 - down''),
       Close])"
proof -
  have "\<forall>i<length [''gemini-2.0-flash'', ''gemini-1.5-pro''].
          request_for node env0 ''k'' [] ([''gemini-2.0-flash'', ''gemini-1.5-pro''] ! i)
            = Inr ([request_of None env0 ''k'' [] ''gemini-2.0-flash'',
                    request_of None env0 ''k'' [] ''gemini-1.5-pro''] ! i)
          \<and> first_then (failing 429 ''busy'') (failing 503 ''down'') i
              ([request_of None env0 ''k'' [] ''gemini-2.0-flash'',
                request_of None env0 ''k'' [] ''gemini-1.5-pro''] ! i)
            = Resolved ([failing 429 ''busy'', failing 503 ''down''] ! i)
          \<and> (status ([failing 429 ''busy'', failing 503 ''down''] ! i) = 429
               \<or> status ([failing 429 ''busy'', failing 503 ''down''] ! i) = 404
               \<or> status ([failing 429 ''busy'', failing 503 ''down''] ! i) = 503)"
    by (simp add: less_Suc_eq failing_def first_then_def request_for_def proxy_agent_def env0_def)
  from all_retryable_tries_every_candidate
         [where fetch = "first_then (failing 429 ''busy'') (failing 503 ''down'')"
            and mk = "request_for node env0 ''k'' []"
            and ms = "[''gemini-2.0-flash'', ''gemini-1.5-pro'']"
            and reqs = "[request_of None env0 ''k'' [] ''gemini-2.0-flash'',
                         request_of None env0 ''k'' [] ''gemini-1.5-pro'']"
            and rs = "[failing 429 ''busy'', failing 503 ''down'']"
            and ts = "[''busy'', ''down'']" and rt = node, OF _ _ _ this]
  show ?thesis
    by (simp add: prod_eq_iff failing_def show_nat.simps digit_def upt_rec less_Suc_eq)
qed

text \<open>
  The claim as first stated does not hold where the text of a response is not read.
  \<^verbatim>\<open>await response.text()\<close> (line 112) stands inside the \<^verbatim>\<open>try\<close> block: when it rejects,
  nothing is pushed onto the error log, and the \<^verbatim>\<open>catch\<close> clause of line 124 puts the
  rejection in the place of the error of all attempts. Here every candidate answers 429
  and no text is read: every candidate is tried, and the message names no model and no
  status.
\<close>

theorem unread_error_text_counterexample:
  "start node (always (unreadable 429 (Error ''socket hang up'')))
     (request_for node env0 ''k'' []) models
   = (map (request_of None env0 ''k'' []) models,
      [Enqueue (cross_mark @ '' Error: socket hang up''), Close])"
  by code_simp

text \<open>
  A candidate that is not the last and answers with another status that is not a
  success sends the loop on as well: what line 122 throws, line 124 catches.
\<close>

lemma other_status_goes_on:
  assumes "mk model = Inr req" and "fetch (length (fetched d)) req = Resolved r" and "\<not> ok r"
    and "response_text r = Inr t"
    and "\<not> (status r = 429 \<or> status r = 404 \<or> status r = 503)"
    and "ms = pre @ model # next # rest"
  shows "for_models fetch mk ms (model # next # rest) d
         = for_models fetch mk ms (next # rest)
             (d\<lparr>usedModel := model, fetched := fetched d @ [req], response := Some r,
                errorLog := errorLog d @ [currentError model (status r) t],
                lastError := Some (all_models_failed (errorLog d @ [currentError model (status r) t]))\<rparr>)"
proof -
  have "indexOf ms model \<noteq> int (length ms) - 1"
    using indexOf_prefix[of pre model "next # rest"] assms(6) by simp
  then have "attempt fetch mk ms model d
         = (Normal, d\<lparr>usedModel := model, fetched := fetched d @ [req], response := Some r,
                errorLog := errorLog d @ [currentError model (status r) t],
                lastError := Some (all_models_failed (errorLog d @ [currentError model (status r) t]))\<rparr>)"
    using assms(1-5) by (simp add: attempt_def try_fetch_def Let_def)
  then show ?thesis by simp
qed

text \<open>
  Claim C1 does not hold of the code. The \<^verbatim>\<open>throw lastError\<close> of line 122 stands inside
  the \<^verbatim>\<open>try\<close> block, so the \<^verbatim>\<open>catch\<close> clause of line 124 catches it and the loop goes
  on to the next candidate. Here the first candidate answers 500 and the second 200:
  the second is fetched and its text relayed.
\<close>

theorem non_retryable_status_does_not_stop:
  "start node
     (first_then (failing 500 ''Internal error'') (streamed [text_line ''Paris'' @ [CHR 0x0A]] None))
     (request_for node env0 ''k'' []) models
   = ([request_of None env0 ''k'' [] ''gemini-2.0-flash'',
       request_of None env0 ''k'' [] ''gemini-2.0-flash-thinking-exp-01-21''],
      [Enqueue ''Paris'', Close])"
  by code_simp

subsection \<open>The transcoder\<close>

text \<open>Splitting a text at its line feeds, part by part.\<close>

lemma split_from_not_Nil [simp]: "split_from cur s \<noteq> []"
  by (induction s arbitrary: cur) auto

lemma split_from_append:
  "split_from cur (a @ b) = butlast (split_from cur a) @ split_from (last (split_from cur a)) b"
  by (induction a arbitrary: cur) auto

lemma split_from_no_newline:
  "CHR 0x0A \<notin> set s \<Longrightarrow> split_from cur s = [cur @ s]"
  by (induction s arbitrary: cur) auto

lemma split_from_prepend:
  "CHR 0x0A \<notin> set cur \<Longrightarrow> split_from pre (cur @ s) = split_from (pre @ cur) s"
  by (induction cur arbitrary: pre) auto

lemma last_split_from_no_newline:
  "CHR 0x0A \<notin> set cur \<Longrightarrow> CHR 0x0A \<notin> set (last (split_from cur s))"
  by (induction s arbitrary: cur) auto

lemma last_split_from_newline:
  "s \<noteq> [] \<Longrightarrow> last s = CHR 0x0A \<Longrightarrow> last (split_from cur s) = []"
  by (induction s arbitrary: cur) (auto split: if_splits)

lemma split_lines_append:
  "split_lines (x @ b) = butlast (split_lines x) @ split_lines (last (split_lines x) @ b)"
proof -
  have "CHR 0x0A \<notin> set (last (split_from [] x))"
    by (rule last_split_from_no_newline) simp
  then have "split_from [] (last (split_from [] x) @ b) = split_from (last (split_from [] x)) b"
    using split_from_prepend[of "last (split_from [] x)" "[]" b] by simp
  then show ?thesis
    unfolding split_lines_def using split_from_append[of "[]" x b] by simp
qed

lemma split_lines_tail:
  assumes "CHR 0x0A \<notin> set tail"
  shows "butlast (split_lines (x @ tail)) = butlast (split_lines x)
       \<and> last (split_lines (x @ tail)) = last (split_lines x) @ tail"
proof -
  have "CHR 0x0A \<notin> set (last (split_lines x))"
    unfolding split_lines_def by (rule last_split_from_no_newline) simp
  with assms have "split_lines (last (split_lines x) @ tail) = [last (split_lines x) @ tail]"
    unfolding split_lines_def using split_from_no_newline[of "last (split_from [] x) @ tail" "[]"]
    by simp
  then show ?thesis
    using split_lines_append[of x tail] by simp
qed

text \<open>The handling of a line neither reads nor writes the buffer.\<close>

lemma buffer_on_data [simp]: "buffer (on_data rt j t) = buffer t"
  by (simp add: on_data_def Let_def split: option.splits sum.splits)

lemma buffer_on_line [simp]: "buffer (on_line rt l t) = buffer t"
  by (simp add: on_line_def Let_def)

lemma on_data_buffer_update:
  "on_data rt j (t\<lparr>buffer := b\<rparr>) = (on_data rt j t)\<lparr>buffer := b\<rparr>"
  by (simp add: on_data_def Let_def split: option.splits sum.splits)

lemma on_line_buffer_update:
  "on_line rt l (t\<lparr>buffer := b\<rparr>) = (on_line rt l t)\<lparr>buffer := b\<rparr>"
  by (simp add: on_line_def Let_def on_data_buffer_update)

lemma fold_on_line_buffer_update:
  "fold (on_line rt) ls (t\<lparr>buffer := b\<rparr>) = (fold (on_line rt) ls t)\<lparr>buffer := b\<rparr>"
  by (induction ls arbitrary: t) (simp_all add: on_line_buffer_update)

lemma on_text_eq:
  "on_text rt s t = (fold (on_line rt) (butlast (split_lines (buffer t @ s))) t)
                      \<lparr>buffer := last (split_lines (buffer t @ s))\<rparr>"
  by (simp add: on_text_def Let_def split_lines_def fold_on_line_buffer_update)

text \<open>Feeding a text in two parts is feeding it at once.\<close>

lemma on_text_append: "on_text rt (a @ b) t = on_text rt b (on_text rt a t)"
proof -
  let ?xs = "split_lines (buffer t @ a)"
  let ?t1 = "fold (on_line rt) (butlast ?xs) t"
  have sp: "split_lines ((buffer t @ a) @ b) = butlast ?xs @ split_lines (last ?xs @ b)"
    by (rule split_lines_append)
  have ne: "split_lines (last ?xs @ b) \<noteq> []"
    by (simp add: split_lines_def)
  have lhs: "on_text rt (a @ b) t
             = (fold (on_line rt) (butlast (split_lines (last ?xs @ b))) ?t1)
                 \<lparr>buffer := last (split_lines (last ?xs @ b))\<rparr>"
    unfolding on_text_eq append_assoc[symmetric] sp
    using ne by (simp add: butlast_append)
  have a: "on_text rt a t = ?t1\<lparr>buffer := last ?xs\<rparr>"
    unfolding on_text_eq ..
  have rhs: "on_text rt b (?t1\<lparr>buffer := last ?xs\<rparr>)
             = (fold (on_line rt) (butlast (split_lines (last ?xs @ b))) ?t1)
                 \<lparr>buffer := last (split_lines (last ?xs @ b))\<rparr>"
    unfolding on_text_eq
    by (simp add: fold_on_line_buffer_update)
  show ?thesis unfolding a lhs rhs ..
qed

lemma on_text_Nil_init: "on_text rt [] transcoder_init = transcoder_init"
  by (simp add: on_text_def split_lines_def transcoder_init_def)

lemma fold_on_text:
  "fold (on_text rt) texts (on_text rt a t) = on_text rt (a @ concat texts) t"
  by (induction texts arbitrary: a) (simp_all add: on_text_append[symmetric])

lemma fold_on_chunk_eq:
  "fold (on_chunk rt) chunks t = fold (on_text rt) (map Buffer_toString chunks) t"
  by (induction chunks arbitrary: t) (simp_all add: on_chunk_def)

lemma fold_on_chunk_init:
  "fold (on_chunk rt) chunks transcoder_init
     = on_text rt (concat (map Buffer_toString chunks)) transcoder_init"
  using fold_on_text[of rt "map Buffer_toString chunks" "[]" transcoder_init]
  by (simp add: fold_on_chunk_eq on_text_Nil_init)

text \<open>What a line does to the state is what it does on its own, added to the state.\<close>

lemma on_data_effect:
  "controller (on_data rt j t) = controller t @ controller (on_data rt j transcoder_init)
   \<and> capturedMetadata (on_data rt j t)
       = (case capturedMetadata (on_data rt j transcoder_init) of
            None \<Rightarrow> capturedMetadata t | Some m \<Rightarrow> Some m)"
  by (auto simp: on_data_def Let_def transcoder_init_def split: option.splits sum.splits)

lemma on_line_effect:
  "controller (on_line rt l t) = controller t @ emitted_by rt l
   \<and> capturedMetadata (on_line rt l t)
       = (case metadata_of rt l of None \<Rightarrow> capturedMetadata t | Some m \<Rightarrow> Some m)"
  using on_data_effect[of rt "drop 6 (trim l)" t]
  by (simp add: on_line_def Let_def emitted_by_def metadata_of_def transcoder_init_def)

lemma fold_on_line_effect:
  "controller (fold (on_line rt) ls t) = controller t @ concat (map (emitted_by rt) ls)
   \<and> capturedMetadata (fold (on_line rt) ls t)
       = (case last_some (map (metadata_of rt) ls) of
            None \<Rightarrow> capturedMetadata t | Some m \<Rightarrow> Some m)"
proof (induction ls arbitrary: t)
  case Nil
  then show ?case by simp
next
  case (Cons l ls)
  show ?case
    using Cons.IH[of "on_line rt l t"] on_line_effect[of rt l t]
    by (simp split: option.splits)
qed

text \<open>The state after the loop over the chunks of a body.\<close>

lemma transcoded:
  "controller (fold (on_chunk rt) chunks transcoder_init)
     = concat (map (emitted_by rt) (complete_lines chunks))
   \<and> capturedMetadata (fold (on_chunk rt) chunks transcoder_init)
     = last_some (map (metadata_of rt) (complete_lines chunks))
   \<and> buffer (fold (on_chunk rt) chunks transcoder_init)
     = last (split_lines (concat (map Buffer_toString chunks)))"
proof -
  have init: "buffer transcoder_init = [] \<and> controller transcoder_init = []
              \<and> capturedMetadata transcoder_init = None"
    by (simp add: transcoder_init_def)
  show ?thesis
    unfolding fold_on_chunk_init on_text_eq
    using fold_on_line_effect[of rt "complete_lines chunks" transcoder_init] init
    by (simp add: complete_lines_def split: option.splits)
qed

lemma last_some_append:
  "last_some (xs @ ys) = (case last_some ys of None \<Rightarrow> last_some xs | Some y \<Rightarrow> Some y)"
  by (induction xs) (simp_all split: option.splits)

lemma last_some_all_None: "\<forall>x\<in>set xs. x = None \<Longrightarrow> last_some xs = None"
  by (induction xs) simp_all

text \<open>What follows the loop reads the controller and the captured metadata only.\<close>

lemma after_loop_cong:
  "controller t = controller t' \<Longrightarrow> capturedMetadata t = capturedMetadata t'
   \<Longrightarrow> after_loop rt thrown t = after_loop rt thrown t'"
  by (simp add: after_loop_def append_sources_def split: option.splits sum.splits)

lemma relay_complete_lines:
  assumes "complete_lines (body r) = complete_lines (body r')" and "body_error r = body_error r'"
  shows "relay rt r = relay rt r'"
  unfolding relay_def assms(2)
  by (rule after_loop_cong) (simp_all add: transcoded assms(1))

lemma metadata_of_truthy: "metadata_of rt l = Some m \<Longrightarrow> truthy (Some m)"
  by (auto simp: metadata_of_def on_line_def on_data_def Let_def transcoder_init_def
           split: if_splits option.splits sum.splits)

text \<open>
  Claim C6, amended. The metadata captured when the stream ends is that of the last
  record that carries metadata among those a line feed ends (the complete lines): if
  \<open>l\<close> is a complete line of the body that carries the metadata \<open>m\<close> and no complete line
  after it carries any, then \<open>m\<close> is what the loop leaves in \<^verbatim>\<open>capturedMetadata\<close>,
  whatever the lines before \<open>l\<close> carried and however the body is cut into chunks, and
  the footer that is appended is the footer of \<open>m\<close>: a capture replaces the one before
  and merges nothing. In the example two lines carry a search query each, and the
  footer shows the second.
\<close>

theorem last_metadata_wins:
  assumes "complete_lines chunks = pre @ l # post"
    and "metadata_of rt l = Some m"
    and "\<forall>x\<in>set post. metadata_of rt x = None"
  shows "capturedMetadata (fold (on_chunk rt) chunks transcoder_init) = Some m
       \<and> append_sources rt (fold (on_chunk rt) chunks transcoder_init)
         = (case footer rt m of
              Inl e \<Rightarrow> Inl e
            | Inr footerText \<Rightarrow>
                Inr (if footerText \<noteq> []
                     then (fold (on_chunk rt) chunks transcoder_init)
                            \<lparr>controller := controller (fold (on_chunk rt) chunks transcoder_init)
                               @ [Enqueue ([CHR 0x0A, CHR 0x0A] @ ''---'' @ [CHR 0x0A] @ footerText)]\<rparr>
                     else fold (on_chunk rt) chunks transcoder_init))"
proof -
  have "last_some (map (metadata_of rt) post) = None"
    using assms(3) by (intro last_some_all_None) auto
  then have "last_some (map (metadata_of rt) (pre @ l # post)) = Some m"
    using assms(2) by (simp add: last_some_append)
  then have c: "capturedMetadata (fold (on_chunk rt) chunks transcoder_init) = Some m"
    using transcoded[of rt chunks] assms(1) by simp
  have "truthy (Some m)" using assms(2) by (rule metadata_of_truthy)
  with c show ?thesis by (simp add: append_sources_def)
qed

theorem last_metadata_wins_witness:
  "capturedMetadata
     (fold (on_chunk node)
        [queries_line ''first'' @ [CHR 0x0A] @ take 40 (queries_line ''second''),
         drop 40 (queries_line ''second'') @ [CHR 0x0A]]
        transcoder_init)
     = Some (JObj [(''webSearchQueries'', JArr [JStr ''second''])])
   \<and> relay node
       (streamed [queries_line ''first'' @ [CHR 0x0A] @ take 40 (queries_line ''second''),
                  drop 40 (queries_line ''second'') @ [CHR 0x0A]] None)
     = [Enqueue ([CHR 0x0A, CHR 0x0A] @ ''---'' @ [CHR 0x0A, CHR 0x0A, CHR 0x0A]
                 @ ''**Search Queries Used:**'' @ [CHR 0x0A] @ ''* second'' @ [CHR 0x0A]),
        Close]"
proof -
  have l: "complete_lines
             [queries_line ''first'' @ [CHR 0x0A] @ take 40 (queries_line ''second''),
              drop 40 (queries_line ''second'') @ [CHR 0x0A]]
           = [queries_line ''first''] @ queries_line ''second'' # []"
    by code_simp
  have m: "metadata_of node (queries_line ''second'')
           = Some (JObj [(''webSearchQueries'', JArr [JStr ''second''])])"
    by code_simp
  have r: "relay node
       (streamed [queries_line ''first'' @ [CHR 0x0A] @ take 40 (queries_line ''second''),
                  drop 40 (queries_line ''second'') @ [CHR 0x0A]] None)
     = [Enqueue ([CHR 0x0A, CHR 0x0A] @ ''---'' @ [CHR 0x0A, CHR 0x0A, CHR 0x0A]
                 @ ''**Search Queries Used:**'' @ [CHR 0x0A] @ ''* second'' @ [CHR 0x0A]),
        Close]"
    by code_simp
  show ?thesis
    using last_metadata_wins[OF l m] r by simp
qed

text \<open>
  Claim C6 as first stated, for the last record of the stream that carries metadata,
  does not hold: a record that no line feed ends stays in the buffer and is never
  parsed (lines 147 and 148). Here the body holds two records that carry a search query
  each, the second without a line feed after it: the first is captured, and the
  footer shows the first.
\<close>

theorem unterminated_metadata_counterexample:
  "metadata_of node (queries_line ''first'')
     = Some (JObj [(''webSearchQueries'', JArr [JStr ''first''])])
   \<and> metadata_of node (queries_line ''second'')
     = Some (JObj [(''webSearchQueries'', JArr [JStr ''second''])])
   \<and> capturedMetadata
       (fold (on_chunk node) [queries_line ''first'' @ [CHR 0x0A] @ queries_line ''second'']
          transcoder_init)
     = Some (JObj [(''webSearchQueries'', JArr [JStr ''first''])])
   \<and> relay node (streamed [queries_line ''first'' @ [CHR 0x0A] @ queries_line ''second''] None)
     = [Enqueue ([CHR 0x0A, CHR 0x0A] @ ''---'' @ [CHR 0x0A, CHR 0x0A, CHR 0x0A]
                 @ ''**Search Queries Used:**'' @ [CHR 0x0A] @ ''* first'' @ [CHR 0x0A]),
        Close]"
  by code_simp

text \<open>
  Claim C7. What follows the last line feed of the decoded body stays in the buffer
  and is neither parsed nor emitted: if the body of \<open>r\<close> decodes to \<open>head @ tail\<close>, where
  \<open>tail\<close> has no line feed and \<open>head\<close> is empty or ends with one, then the buffer holds
  \<open>tail\<close> when the stream ends, and the calls on the controller are those for a response
  \<open>r'\<close> whose body decodes to \<open>head\<close> alone. In the example the tail is a complete
  record with the text \<^verbatim>\<open>Paris\<close>, which is lost.
\<close>

theorem unterminated_tail_is_dropped:
  assumes "concat (map Buffer_toString (body r)) = head @ tail"
    and "CHR 0x0A \<notin> set tail"
    and "head = [] \<or> last head = CHR 0x0A"
    and "concat (map Buffer_toString (body r')) = head"
    and "body_error r' = body_error r"
  shows "buffer (fold (on_chunk rt) (body r) transcoder_init) = tail
       \<and> relay rt r = relay rt r'"
proof -
  note T = split_lines_tail[OF assms(2), of head]
  have "last (split_lines head) = []"
    using assms(3) last_split_from_newline[of head "[]"]
    by (cases "head = []") (auto simp: split_lines_def)
  with T have "buffer (fold (on_chunk rt) (body r) transcoder_init) = tail"
    by (simp add: transcoded assms(1))
  moreover have "complete_lines (body r) = complete_lines (body r')"
    using T by (simp add: complete_lines_def assms(1,4))
  then have "relay rt r = relay rt r'"
    using assms(5) by (intro relay_complete_lines) simp_all
  ultimately show ?thesis by simp
qed

theorem unterminated_tail_witness:
  "buffer (fold (on_chunk node) [text_line ''Hello'' @ [CHR 0x0A] @ text_line ''Paris'']
             transcoder_init)
     = text_line ''Paris''
   \<and> relay node (streamed [text_line ''Hello'' @ [CHR 0x0A] @ text_line ''Paris''] None)
     = [Enqueue ''Hello'', Close]"
proof -
  have d: "concat (map Buffer_toString
             (body (streamed [text_line ''Hello'' @ [CHR 0x0A] @ text_line ''Paris''] None)))
           = (text_line ''Hello'' @ [CHR 0x0A]) @ text_line ''Paris''"
    by code_simp
  have n: "CHR 0x0A \<notin> set (text_line ''Paris'')"
    by code_simp
  have h: "text_line ''Hello'' @ [CHR 0x0A] = [] \<or> last (text_line ''Hello'' @ [CHR 0x0A]) = CHR 0x0A"
    by simp
  have d': "concat (map Buffer_toString (body (streamed [text_line ''Hello'' @ [CHR 0x0A]] None)))
           = text_line ''Hello'' @ [CHR 0x0A]"
    by code_simp
  have e: "body_error (streamed [text_line ''Hello'' @ [CHR 0x0A]] None)
         = body_error (streamed [text_line ''Hello'' @ [CHR 0x0A] @ text_line ''Paris''] None)"
    by (simp add: streamed_def)
  have r: "relay node (streamed [text_line ''Hello'' @ [CHR 0x0A]] None) = [Enqueue ''Hello'', Close]"
    by code_simp
  show ?thesis
    using unterminated_tail_is_dropped[OF d n h d' e, of node] r
    by (simp add: streamed_def)
qed

text \<open>
  An exception leaves the loop over the candidates only where no candidate has given a
  usable response.
\<close>

lemma attempt_no_usable_response:
  assumes "\<forall>r. response d = Some r \<longrightarrow> \<not> ok r" and "attempt fetch mk ms model d = (c, d1)"
    and "c \<noteq> Break"
  shows "\<forall>r. response d1 = Some r \<longrightarrow> \<not> ok r"
  using assms
  by (auto simp: attempt_def try_fetch_def Let_def
           split: sum.splits fetch_result.splits if_splits)

lemma usable_response_not_thrown:
  assumes "\<forall>r. response d = Some r \<longrightarrow> \<not> ok r"
    and "fst (for_models fetch mk ms rest d) = Some error"
  shows "\<forall>r. response (snd (for_models fetch mk ms rest d)) = Some r \<longrightarrow> \<not> ok r"
  using assms
proof (induction rest arbitrary: d)
  case Nil
  then show ?case by simp
next
  case (Cons model rest)
  obtain c d1 where a: "attempt fetch mk ms model d = (c, d1)"
    by (cases "attempt fetch mk ms model d")
  show ?case
  proof (cases c)
    case Break
    with a Cons.prems(2) show ?thesis by simp
  next
    case (Throw e)
    with a have "snd (for_models fetch mk ms (model # rest) d) = d1" by simp
    moreover have "\<forall>r. response d1 = Some r \<longrightarrow> \<not> ok r"
      using attempt_no_usable_response[OF Cons.prems(1) a] Throw by simp
    ultimately show ?thesis by simp
  next
    case Normal
    with a have f: "for_models fetch mk ms (model # rest) d = for_models fetch mk ms rest d1"
      by simp
    have "\<forall>r. response d1 = Some r \<longrightarrow> \<not> ok r"
      using attempt_no_usable_response[OF Cons.prems(1) a] Normal by simp
    from Cons.IH[OF this] Cons.prems(2) show ?thesis unfolding f by simp
  next
    case Continue
    with a have f: "for_models fetch mk ms (model # rest) d = for_models fetch mk ms rest d1"
      by simp
    have "\<forall>r. response d1 = Some r \<longrightarrow> \<not> ok r"
      using attempt_no_usable_response[OF Cons.prems(1) a] Continue by simp
    from Cons.IH[OF this] Cons.prems(2) show ?thesis unfolding f by simp
  qed
qed

text \<open>
  Claim C9, amended. When a candidate gives a usable response \<open>r\<close> and no complete line
  of its body carries grounding metadata, no footer is written: the controller receives
  what the lines emit, in order, and is closed; when the iteration over the body fails,
  the inline error of the outer \<^verbatim>\<open>catch\<close> comes before the close.
\<close>

theorem no_metadata_no_footer:
  assumes "response (snd (for_models fetch mk ms ms dispatch_init)) = Some r" and "ok r"
    and "\<forall>l\<in>set (complete_lines (body r)). metadata_of rt l = None"
  shows "snd (start rt fetch mk ms)
         = concat (map (emitted_by rt) (complete_lines (body r)))
           @ (case body_error r of
                None \<Rightarrow> []
              | Some e \<Rightarrow> [Enqueue ([CHR 0x0A, CHR 0x0A] @ cross_mark @ '' Internal Error: ''
                                     @ exn_message rt e)])
           @ [Close]"
proof -
  have "last_some (map (metadata_of rt) (complete_lines (body r))) = None"
    using assms(3) by (intro last_some_all_None) auto
  then have "capturedMetadata (fold (on_chunk rt) (body r) transcoder_init) = None"
    by (simp add: transcoded)
  then have "relay rt r = concat (map (emitted_by rt) (complete_lines (body r)))
           @ (case body_error r of
                None \<Rightarrow> []
              | Some e \<Rightarrow> [Enqueue ([CHR 0x0A, CHR 0x0A] @ cross_mark @ '' Internal Error: ''
                                     @ exn_message rt e)])
           @ [Close]"
    by (simp add: relay_def after_loop_def append_sources_def on_error_def transcoded
             split: option.splits)
  moreover have "fst (for_models fetch mk ms ms dispatch_init) = None"
    using usable_response_not_thrown[of dispatch_init fetch mk ms ms] assms(1,2)
    by (cases "fst (for_models fetch mk ms ms dispatch_init)") (auto simp: dispatch_init_def)
  ultimately show ?thesis using assms(1,2)
    by (cases "for_models fetch mk ms ms dispatch_init") (simp add: start_def)
qed

theorem no_metadata_no_footer_witness:
  "snd (start node (always (streamed [text_line ''Hello'' @ [CHR 0x0A],
                                      text_line ''Paris'' @ [CHR 0x0A]] None))
          (request_for node env0 ''k'' []) models)
   = [Enqueue ''Hello'', Enqueue ''Paris'', Close]"
proof -
  let ?r = "streamed [text_line ''Hello'' @ [CHR 0x0A], text_line ''Paris'' @ [CHR 0x0A]] None"
  have w: "response (snd (for_models (always ?r) (request_for node env0 ''k'' []) models models
                      dispatch_init)) = Some ?r"
    by code_simp
  have k: "ok ?r" by code_simp
  have m: "\<forall>l\<in>set (complete_lines (body ?r)). metadata_of node l = None"
    by code_simp
  have e: "concat (map (emitted_by node) (complete_lines (body ?r)))
           = [Enqueue ''Hello'', Enqueue ''Paris'']"
    by code_simp
  show ?thesis
    using no_metadata_no_footer[OF w k m] e
    by (simp add: streamed_def)
qed

text \<open>
  Claim C9 as stated, for every invocation in which no metadata is captured, does not
  hold: here the body yields one line with the text \<^verbatim>\<open>Hello\<close> and then fails. No
  metadata is captured, the only text delta is \<^verbatim>\<open>Hello\<close>, and the output is \<^verbatim>\<open>Hello\<close>
  followed by the inline error.
\<close>

theorem no_footer_counterexample:
  "capturedMetadata
     (fold (on_chunk node) (body (streamed [text_line ''Hello'' @ [CHR 0x0A]] (Some (Error ''aborted''))))
        transcoder_init) = None
   \<and> concat (map (emitted_by node)
        (complete_lines (body (streamed [text_line ''Hello'' @ [CHR 0x0A]] (Some (Error ''aborted''))))))
     = [Enqueue ''Hello'']
   \<and> snd (start node
        (always (streamed [text_line ''Hello'' @ [CHR 0x0A]] (Some (Error ''aborted''))))
        (request_for node env0 ''k'' []) models)
     = [Enqueue ''Hello'',
        Enqueue ([CHR 0x0A, CHR 0x0A] @ cross_mark @ '' Internal Error: aborted''),
        Close]"
  by code_simp

text \<open>
  Chunking does not matter where decoding the chunks one by one gives the decoded
  whole.
\<close>

lemma chunking_of_text:
  assumes "concat (map Buffer_toString (body r)) = Buffer_toString (concat (body r))"
  shows "relay rt r = relay rt (r\<lparr>body := [concat (body r)]\<rparr>)"
  by (rule relay_complete_lines) (simp_all add: complete_lines_def assms)

text \<open>
  Claim C2 does not hold of the code: \<^verbatim>\<open>chunk.toString()\<close> decodes every chunk on its
  own, so a chunk boundary inside a character of several bytes changes the output.
  The body is one line whose text is U+00E9 (bytes C3 A9). Delivered whole, the stream
  emits the character; cut between its two bytes, it emits U+FFFD twice. The two
  deliveries carry the same bytes.
\<close>

theorem split_character_changes_output:
  \<open>relay node (streamed [text_line [CHR 0xC3, CHR 0xA9] @ [CHR 0x0A]] None)
     = [Enqueue [CHR 0xC3, CHR 0xA9], Close]
   \<and> relay node
       (streamed [''data: {"candidates":[{"content":{"parts":[{"text":"'' @ [CHR 0xC3],
                  [CHR 0xA9] @ ''"}]}}]}'' @ [CHR 0x0A]] None)
     = [Enqueue [CHR 0xEF, CHR 0xBF, CHR 0xBD, CHR 0xEF, CHR 0xBF, CHR 0xBD], Close]
   \<and> concat [''data: {"candidates":[{"content":{"parts":[{"text":"'' @ [CHR 0xC3],
              [CHR 0xA9] @ ''"}]}}]}'' @ [CHR 0x0A]]
     = concat [text_line [CHR 0xC3, CHR 0xA9] @ [CHR 0x0A]]\<close>
  by code_simp

subsection \<open>The footer\<close>






text \<open>
  Where building the footer throws, no block is written: a reference that is \<^verbatim>\<open>null\<close>
  (reading \<^verbatim>\<open>c.web\<close> throws) and a title that is an object with an own property
  \<^verbatim>\<open>toString\<close> (the template literal throws) both end in the outer \<^verbatim>\<open>catch\<close>.
\<close>

lemma null_reference_example:
  \<open>relay node
     (streamed [''data: {"candidates":[{"groundingMetadata":{"groundingChunks":''
                @ ''[{"web":{"title":"A","uri":"U"}},null]}}]}'' @ [CHR 0x0A]] None)
   = [Enqueue ([CHR 0x0A, CHR 0x0A] @ cross_mark
               @ '' Internal Error: Cannot read properties of null (reading 'web')''),
      Close]\<close>
  by code_simp

lemma unconvertible_title_example:
  \<open>relay node
     (streamed [''data: {"candidates":[{"groundingMetadata":{"groundingChunks":''
                @ ''[{"web":{"title":{"toString":"x"},"uri":"U"}}]}}]}'' @ [CHR 0x0A]] None)
   = [Enqueue ([CHR 0x0A, CHR 0x0A] @ cross_mark
               @ '' Internal Error: Cannot convert object to primitive value''),
      Close]\<close>
  by code_simp

subsection \<open>The handler\<close>

text \<open>Every request the loop gives to \<^verbatim>\<open>fetch\<close> is the request of a candidate.\<close>

lemma fetched_attempt:
  "fetched (snd (attempt fetch mk ms model d))
     = fetched d @ (case mk model of Inl error \<Rightarrow> [] | Inr req \<Rightarrow> [req])"
  by (simp add: attempt_def try_fetch_def Let_def split: fetch_result.splits sum.splits)

lemma fetched_for_models:
  "set (fetched (snd (for_models fetch mk ms rest d)))
     \<subseteq> set (fetched d) \<union> {req. \<exists>model\<in>set rest. mk model = Inr req}"
proof (induction rest arbitrary: d)
  case Nil
  then show ?case by simp
next
  case (Cons model rest)
  obtain c d1 where a: "attempt fetch mk ms model d = (c, d1)" by (cases "attempt fetch mk ms model d")
  then have f: "fetched d1 = fetched d @ (case mk model of Inl error \<Rightarrow> [] | Inr req \<Rightarrow> [req])"
    using fetched_attempt[of fetch mk ms model d] by simp
  then have s: "set (fetched d1) \<subseteq> set (fetched d) \<union> {req. \<exists>m\<in>set (model # rest). mk m = Inr req}"
    by (auto split: sum.splits)
  show ?case
  proof (cases "c = Break \<or> (\<exists>e. c = Throw e)")
    case True
    with a have "snd (for_models fetch mk ms (model # rest) d) = d1" by auto
    with s show ?thesis by simp
  next
    case False
    with a have "for_models fetch mk ms (model # rest) d = for_models fetch mk ms rest d1"
      by (cases c) simp_all
    with Cons.IH[of d1] s show ?thesis by auto
  qed
qed

lemma body_of_request_for:
  "request_for rt e apiKey contents model = Inr req \<Longrightarrow> options_body req = request_body contents"
  by (cases "proxy_agent rt e") (auto simp: request_for_def request_of_def)

lemma prompt_suffix_not_empty: "prompt_suffix \<noteq> []"
  by (simp add: prompt_suffix_def)

lemma map_constant: "\<forall>x\<in>set xs. f x = c \<Longrightarrow> map f xs = replicate (length xs) c"
  by (induction xs) simp_all

lemma always_failing_calls:
  assumes "\<forall>model. mk model = Inr (rq model)"
  shows "fst (start rt (always (failing 503 t)) mk ms) = map rq ms"
proof -
  have "\<forall>j<length ms. mk (ms ! j) = Inr (map rq ms ! j)
          \<and> (\<exists>r. always (failing 503 t) (length (fetched dispatch_init) + j) (map rq ms ! j)
                   = Resolved r \<and> \<not> ok r)"
    using assms by (simp add: failing_def always_def ok_def)
  from for_models_all_fetched[where pre = "[]" and ms = ms and rest = ms and reqs = "map rq ms"
         and fetch = "always (failing 503 t)" and mk = mk and d = dispatch_init, OF _ _ this]
  show ?thesis by (simp add: fst_start dispatch_init_def)
qed

text \<open>
  Claim C10. In every request the handler sends upstream, the turn that carries the
  new prompt is the last of the contents and its text is the prompt, as a string,
  followed by the fixed instruction \<open>prompt_suffix\<close>, which is not empty, so the text is
  never the prompt itself; with it go the search tool and the fixed system instruction
  \<open>system_text\<close>. The body is the same in every attempt: it depends on the prompt and the
  prior turns only.
\<close>

theorem prompt_is_sent_with_suffix:
  "(\<forall>req\<in>set (snd (POST rt e (Inr b) fetch)).
      \<exists>contents prompt. history_map (own b ''history'') = Inr contents
        \<and> to_String rt (own b ''message'') = Inr prompt
        \<and> options_body req =
            JObj [(''contents'',
                   JArr (contents @
                     [JObj [(''role'', JStr ''user''),
                            (''parts'', JArr [JObj [(''text'', JStr (prompt @ prompt_suffix))]])]])),
                  (''tools'', JArr [JObj [(''googleSearch'', JObj [])]]),
                  (''system_instruction'',
                   JObj [(''parts'', JArr [JObj [(''text'', JStr system_text)]])])]
        \<and> prompt @ prompt_suffix \<noteq> prompt)
   \<and> prompt_suffix \<noteq> []"
proof -
  have "\<exists>contents prompt. history_map (own b ''history'') = Inr contents
        \<and> to_String rt (own b ''message'') = Inr prompt
        \<and> options_body req =
            request_body (contents @
              [JObj [(''role'', JStr ''user''),
                     (''parts'', JArr [JObj [(''text'', JStr (prompt @ prompt_suffix))]])]])"
    if "req \<in> set (snd (POST rt e (Inr b) fetch))" for req
  proof (cases "b = JNull \<or> GEMINI_API_KEY e = None \<or> GEMINI_API_KEY e = Some []")
    case True
    with that show ?thesis by (auto simp: POST_def Let_def split: if_splits)
  next
    case False
    then obtain k where k: "GEMINI_API_KEY e = Some k" "k \<noteq> []" "b \<noteq> JNull" by auto
    show ?thesis
    proof (cases "history_map (own b ''history'')")
      case (Inl ex)
      with k that show ?thesis by (simp add: POST_def)
    next
      case (Inr contents)
      show ?thesis
      proof (cases "to_String rt (own b ''message'')")
        case (Inl ex)
        with Inr k that show ?thesis by (simp add: POST_def user_turn_def)
      next
        case prompt: (Inr prompt)
        let ?current = "JObj [(''role'', JStr ''user''),
                     (''parts'', JArr [JObj [(''text'', JStr (prompt @ prompt_suffix))]])]"
        let ?mk = "request_for rt e k (contents @ [?current])"
        from Inr prompt k that
        have "req \<in> set (fetched (snd (for_models fetch ?mk models models dispatch_init)))"
          by (simp add: POST_def Let_def user_turn_def fst_start)
        with fetched_for_models[of fetch ?mk models models dispatch_init]
        have "\<exists>model\<in>set models. ?mk model = Inr req" by (auto simp: dispatch_init_def)
        then have "options_body req = request_body (contents @ [?current])"
          using body_of_request_for by blast
        with Inr prompt show ?thesis by simp
      qed
    qed
  qed
  then show ?thesis
    by (simp add: request_body_def prompt_suffix_not_empty)
qed

theorem prompt_is_sent_with_suffix_witness:
  "map options_body (snd (POST node env0 (Inr hello) (always (failing 503 ''down''))))
   = replicate 5
       (JObj [(''contents'',
               JArr [JObj [(''role'', JStr ''user''),
                           (''parts'', JArr [JObj [(''text'',
                              JStr (''What is the capital of France?'' @ prompt_suffix))]])]]),
              (''tools'', JArr [JObj [(''googleSearch'', JObj [])]]),
              (''system_instruction'',
               JObj [(''parts'', JArr [JObj [(''text'', JStr system_text)]])])])"
proof -
  let ?calls = "snd (POST node env0 (Inr hello) (always (failing 503 ''down'')))"
  have h: "history_map (own hello ''history'') = Inr []"
    by (simp add: hello_def history_map_def)
  have m: "to_String node (own hello ''message'') = Inr ''What is the capital of France?''"
    by (simp add: hello_def to_String_def)
  have "hello \<noteq> JNull" by (simp add: hello_def)
  moreover have "\<forall>model. request_for node env0 ''k'' contents model
                   = Inr (request_of None env0 ''k'' contents model)" for contents
    by (simp add: request_for_def proxy_agent_def env0_def)
  ultimately have n: "length ?calls = 5"
    using always_failing_calls[of "request_for node env0 ''k'' contents"
            "request_of None env0 ''k'' contents" node "''down''" models for contents]
    by (simp add: POST_def env0_def h m user_turn_def Let_def models_def)
  have "\<forall>req\<in>set ?calls. options_body req =
       JObj [(''contents'',
               JArr [JObj [(''role'', JStr ''user''),
                           (''parts'', JArr [JObj [(''text'',
                              JStr (''What is the capital of France?'' @ prompt_suffix))]])]]),
              (''tools'', JArr [JObj [(''googleSearch'', JObj [])]]),
              (''system_instruction'',
               JObj [(''parts'', JArr [JObj [(''text'', JStr system_text)]])])]"
    using prompt_is_sent_with_suffix[of node env0 hello "always (failing 503 ''down'')"]
    unfolding h m by auto
  from map_constant[OF this] n show ?thesis by simp
qed

text \<open>
  \<^verbatim>\<open>history.map\<close> returns exactly for an array without \<^verbatim>\<open>null\<close> elements, and the
  conversion to a string exactly for a value that is not, and does not hold in an
  array, an object with an own property \<^verbatim>\<open>toString\<close>.
\<close>

lemma map_throwing_turn: "(\<exists>contents. map_throwing turn msgs = Inr contents) \<longleftrightarrow> JNull \<notin> set msgs"
  by (induction msgs) (auto simp: turn_def split: sum.splits)

lemma history_map_returns:
  "(\<exists>contents. history_map history = Inr contents)
     \<longleftrightarrow> (\<exists>msgs. history = Some (JArr msgs) \<and> JNull \<notin> set msgs)"
proof (cases history)
  case None
  then show ?thesis by (simp add: history_map_def)
next
  case (Some v)
  then show ?thesis
    using map_throwing_turn by (cases v) (simp_all add: history_map_def)
qed

lemma js_String_returns:
  "(\<exists>s. js_String rt v = Inr s) \<longleftrightarrow> convertible v"
  "(\<exists>ss. element_Strings rt xs = Inr ss) \<longleftrightarrow> convertibles xs"
  by (induction rt v and rt xs rule: js_String_element_Strings.induct)
     (auto split: sum.splits option.splits)

lemma to_String_returns:
  "(\<exists>s. to_String rt v = Inr s) \<longleftrightarrow> (case v of None \<Rightarrow> True | Some x \<Rightarrow> convertible x)"
  by (cases v) (simp_all add: to_String_def js_String_returns)

text \<open>
  Claim C8, amended. Without a credential (the variable absent or empty) the handler
  returns a JSON error object with status 500, and no request has been given to
  \<^verbatim>\<open>fetch\<close>. With a credential it returns the stream exactly when the body of the request
  could be read, is not \<^verbatim>\<open>null\<close>, its history is an array without \<^verbatim>\<open>null\<close> elements,
  and its message is absent or is a value that is converted to a string without an
  exception: not an object with an own property \<^verbatim>\<open>toString\<close>, nor an array that holds such
  an object, at any depth of arrays. Whenever it does not return the stream it returns
  such a JSON error object with status 500, and no request has been given to
  \<^verbatim>\<open>fetch\<close>.
\<close>

theorem credential_gate:
  "((GEMINI_API_KEY e = None \<or> GEMINI_API_KEY e = Some [])
      \<longrightarrow> (\<exists>m. POST rt e rj fetch = (Json_response (JObj [(''error'', JStr m)]) 500, [])))
   \<and> ((\<exists>k. GEMINI_API_KEY e = Some k \<and> k \<noteq> [])
      \<longrightarrow> ((\<exists>es. fst (POST rt e rj fetch) = Stream_response es)
           \<longleftrightarrow> (\<exists>b msgs. rj = Inr b \<and> b \<noteq> JNull
                  \<and> own b ''history'' = Some (JArr msgs) \<and> JNull \<notin> set msgs
                  \<and> (case own b ''message'' of None \<Rightarrow> True | Some m \<Rightarrow> convertible m))))
   \<and> ((\<forall>es. fst (POST rt e rj fetch) \<noteq> Stream_response es)
      \<longrightarrow> (\<exists>m. POST rt e rj fetch = (Json_response (JObj [(''error'', JStr m)]) 500, [])))"
proof -
  have iff: "(\<exists>b msgs. rj = Inr b \<and> b \<noteq> JNull
                  \<and> own b ''history'' = Some (JArr msgs) \<and> JNull \<notin> set msgs
                  \<and> (case own b ''message'' of None \<Rightarrow> True | Some m \<Rightarrow> convertible m))
           \<longleftrightarrow> (\<exists>b contents prompt. rj = Inr b \<and> b \<noteq> JNull
                  \<and> history_map (own b ''history'') = Inr contents
                  \<and> to_String rt (own b ''message'') = Inr prompt)"
    using history_map_returns to_String_returns[of rt] by metis
  show ?thesis
    unfolding iff
    by (cases rj; cases "GEMINI_API_KEY e")
       (auto simp: POST_def server_error_def user_turn_def Let_def split: sum.splits)
qed

theorem credential_gate_witness:
  "POST node no_key (Inr hello) (always (failing 503 ''down''))
     = (Json_response
          (JObj [(''error'', JStr ''GEMINI_API_KEY is not defined in environment variables'')]) 500,
        [])
   \<and> (\<exists>es. fst (POST node env0 (Inr hello) (always (failing 503 ''down''))) = Stream_response es)"
proof -
  have a: "GEMINI_API_KEY no_key = None \<or> GEMINI_API_KEY no_key = Some []"
    by (simp add: no_key_def)
  have b: "\<exists>k. GEMINI_API_KEY env0 = Some k \<and> k \<noteq> []"
    by (simp add: env0_def)
  have c: "\<exists>b msgs. (Inr hello :: exn + json) = Inr b \<and> b \<noteq> JNull
             \<and> own b ''history'' = Some (JArr msgs) \<and> JNull \<notin> set msgs
             \<and> (case own b ''message'' of None \<Rightarrow> True | Some m \<Rightarrow> convertible m)"
    by (simp add: hello_def)
  have "\<exists>m. POST node no_key (Inr hello) (always (failing 503 ''down''))
             = (Json_response (JObj [(''error'', JStr m)]) 500, [])"
    using credential_gate[of no_key node "Inr hello" "always (failing 503 ''down'')"] a by blast
  then have 1: "POST node no_key (Inr hello) (always (failing 503 ''down''))
     = (Json_response
          (JObj [(''error'', JStr ''GEMINI_API_KEY is not defined in environment variables'')]) 500,
        [])"
    by (simp add: POST_def no_key_def hello_def)
  have 2: "\<exists>es. fst (POST node env0 (Inr hello) (always (failing 503 ''down''))) = Stream_response es"
    using credential_gate[of env0 node "Inr hello" "always (failing 503 ''down'')"] b c by blast
  from 1 2 show ?thesis by (rule conjI)
qed

text \<open>
  Claim C8 as first stated, with its "only if", does not hold: the outer \<^verbatim>\<open>catch\<close> of
  the handler (lines 210 to 216) returns the JSON error object for every exception.
  Here the credential is present and \<^verbatim>\<open>req.json()\<close> rejects.
\<close>

theorem credential_gate_counterexample:
  "POST node env0 (Inl (Error ''Unexpected end of JSON input'')) (always (failing 503 ''down''))
   = (Json_response (JObj [(''error'', JStr ''Unexpected end of JSON input'')]) 500, [])
   \<and> GEMINI_API_KEY env0 = Some ''k''"
  by (simp add: POST_def server_error_def env0_def)

text \<open>
  So it is with a message whose conversion to a string throws (line 32), and with a
  history that holds \<^verbatim>\<open>null\<close> (line 25). And where the constructor of the proxy agent
  throws (line 102), the handler has returned the stream, which receives the inline
  error and is closed, and no request is given to \<^verbatim>\<open>fetch\<close>.
\<close>

lemma unconvertible_message_example:
  "POST node env0
     (Inr (JObj [(''message'', JObj [(''toString'', JStr ''x'')]), (''history'', JArr [])]))
     (always (failing 503 ''down''))
   = (Json_response (JObj [(''error'', JStr ''Cannot convert object to primitive value'')]) 500, [])"
  by code_simp

lemma null_turn_example:
  "POST node env0
     (Inr (JObj [(''message'', JStr ''Hi''), (''history'', JArr [JNull])]))
     (always (failing 503 ''down''))
   = (Json_response
        (JObj [(''error'', JStr ''Cannot read properties of null (reading 'role')'')]) 500, [])"
  by code_simp

lemma agent_failure_example:
  "POST (node\<lparr>HttpsProxyAgent := \<lambda>proxyUrl. Some (TypeError Invalid_URL)\<rparr>)
     (env0\<lparr>HTTPS_PROXY := Some ''proxy''\<rparr>) (Inr hello) (always (failing 503 ''down''))
   = (Stream_response
        [Enqueue ([CHR 0x0A, CHR 0x0A] @ cross_mark @ '' Internal Error: Invalid URL''), Close],
      [])"
  by code_simp

end
